theory Spec2Isabelle
  imports Main "HOL-Library.Char_ord" "HOL-Library.List_Lexorder"
begin

section \<open>The polling peer-connection hook (useServerlessWebRTC.ts)\<close>

text \<open>
  The hook keeps its connection pool in a handful of mutable references (a map from peer
  id to connection object, and parallel maps and sets keyed by peer id). The model is a
  record of these references, passed through every function and returned updated.

  JavaScript runs one handler at a time, so each handler is a function from state to
  state. The asynchronous handlers (\<open>initiateCall\<close>, \<open>handleOffer\<close>,
  \<open>handleAnswer\<close>) are modelled as running to completion: the points where they wait
  for the browser are not interleaved with other handlers. What the browser answers to a
  call that can be rejected is a parameter of the handler (\<open>rtc_outcome\<close>).
\<close>

subsection \<open>Data\<close>

text \<open>
  Peer ids are strings of 8-bit characters. On them the lexicographic order of lists over
  the order of character codes is the order JavaScript's \<open><\<close> gives two strings.
\<close>

type_synonym PeerId = string

text \<open>An ICE candidate and the text of a session description are opaque payloads.\<close>

type_synonym candidate = string

datatype sdp_kind = OfferSdp | AnswerSdp

record description =
  sdp_type :: sdp_kind
  sdp_text :: string

record media_stream =
  stream_id :: string
  stream_active :: bool
  videoTracks :: nat
  audioTracks :: nat

text \<open>
  The values a function of the hook closes over: \<open>localStream\<close> (null until
  \<open>startLocalStream\<close> succeeds) and the two optional arguments of the hook.
\<close>

record hook_env =
  localStream :: "media_stream option"
  gameId :: "string option"
  playerId :: "string option"

text \<open>JavaScript truthiness of an optional string: undefined and the empty string are falsy.\<close>

definition truthy :: "string option \<Rightarrow> bool" where
  "truthy v = (case v of None \<Rightarrow> False | Some s \<Rightarrow> s \<noteq> [])"

text \<open>
  \<open>playerId! < from\<close>: both operands strings, the comparison is lexicographic on
  code units; with \<open>playerId\<close> undefined the comparison is false.
\<close>

definition js_less :: "string option \<Rightarrow> string \<Rightarrow> bool" where
  "js_less me other = (case me of None \<Rightarrow> False | Some a \<Rightarrow> a < other)"

datatype conn_state = New | Connecting | Connected | Disconnected | Failed | Closed

datatype sig_state = Stable | HaveLocalOffer | HaveRemoteOffer | SigClosed

text \<open>
  The browser's connection object, as far as the hook reads it: the two state fields,
  the two descriptions, and a log of the calls the hook made on it, in order. The peer id
  and the closure values are those captured by the event handlers that
  \<open>createPeerConnection\<close> installs on the object.
\<close>

datatype pc_call =
    AddTrack
  | CreateOffer
  | CreateAnswer
  | SetLocalDescription description
  | SetRemoteDescription description
  | AddIceCandidate candidate
  | Close

record RTCPeerConnection =
  pc_peer :: PeerId
  pc_env :: hook_env
  connectionState :: conn_state
  signalingState :: sig_state
  localDescription :: "description option"
  remoteDescription :: "description option"
  pc_calls :: "pc_call list"

text \<open>What the browser answers to the calls of one handler run that can be rejected.\<close>

record rtc_outcome =
  createOffer_result :: "description option"
  createAnswer_result :: "description option"
  setLocalDescription_ok :: bool
  setRemoteDescription_ok :: bool

datatype signal_body =
    OfferBody description
  | AnswerBody description
  | CandidateBody candidate
  | OtherBody

record signal =
  sig_game :: string
  sig_from :: PeerId
  sig_to :: PeerId
  sig_body :: signal_body

text \<open>
  The three closures the hook hands to \<open>setTimeout\<close>: the grace check of a
  disconnected connection object, the retry after a failure, and the staggered call of
  \<open>establishConnections\<close>.
\<close>

datatype timer_action =
    GraceCheck nat PeerId
  | RetryCall PeerId
  | StaggerCall PeerId

record timer =
  due :: nat
  timer_env :: hook_env
  timer_action :: timer_action

text \<open>
  The state: every connection object ever created (\<open>pcs\<close>, an object is its index),
  the references of the hook, the remote streams shown to the user, the signalling
  messages posted so far, the pending timers and the clock in milliseconds.
\<close>

record hook_state =
  pcs :: "RTCPeerConnection list"
  peerConnections :: "PeerId \<rightharpoonup> nat"
  connectionAttempts :: "PeerId \<rightharpoonup> nat"
  pendingOffers :: "PeerId set"
  isInitiator :: "PeerId \<rightharpoonup> bool"
  connectionStates :: "PeerId \<rightharpoonup> conn_state"
  establishedConnections :: "PeerId set"
  iceCandidateQueue :: "PeerId \<rightharpoonup> candidate list"
  remoteStreams :: "PeerId \<rightharpoonup> media_stream"
  outbox :: "signal list"
  timers :: "timer list"
  now :: nat

definition initial_state :: hook_state where
  "initial_state =
     \<lparr>pcs = [], peerConnections = Map.empty, connectionAttempts = Map.empty,
      pendingOffers = {}, isInitiator = Map.empty, connectionStates = Map.empty,
      establishedConnections = {}, iceCandidateQueue = Map.empty,
      remoteStreams = Map.empty, outbox = [], timers = [], now = 0\<rparr>"

subsection \<open>Connection objects\<close>

definition upd_pc :: "nat \<Rightarrow> (RTCPeerConnection \<Rightarrow> RTCPeerConnection) \<Rightarrow> hook_state \<Rightarrow> hook_state" where
  "upd_pc i f w = w\<lparr>pcs := (pcs w)[i := f (pcs w ! i)]\<rparr>"

definition log_call :: "pc_call \<Rightarrow> RTCPeerConnection \<Rightarrow> RTCPeerConnection" where
  "log_call c pc = pc\<lparr>pc_calls := pc_calls pc @ [c]\<rparr>"

text \<open>\<open>pc.close()\<close>: both state fields read closed afterwards.\<close>

definition pc_close :: "RTCPeerConnection \<Rightarrow> RTCPeerConnection" where
  "pc_close pc = log_call Close (pc\<lparr>connectionState := Closed, signalingState := SigClosed\<rparr>)"

text \<open>\<open>new RTCPeerConnection(...)\<close> followed by one \<open>addTrack\<close> per local track.\<close>

definition new_pc :: "hook_env \<Rightarrow> PeerId \<Rightarrow> RTCPeerConnection" where
  "new_pc env peerId =
     \<lparr>pc_peer = peerId, pc_env = env, connectionState = New, signalingState = Stable,
      localDescription = None, remoteDescription = None,
      pc_calls = (case localStream env of
                    None \<Rightarrow> []
                  | Some s \<Rightarrow> replicate (videoTracks s + audioTracks s) AddTrack)\<rparr>"

text \<open>
  \<open>existingPc && (existingPc.connectionState === 'connected' ||
  existingPc.connectionState === 'connecting')\<close>, the test four functions repeat.
\<close>

definition working :: "hook_state \<Rightarrow> PeerId \<Rightarrow> bool" where
  "working w peerId =
     (case peerConnections w peerId of
        None \<Rightarrow> False
      | Some i \<Rightarrow> connectionState (pcs w ! i) = Connected \<or> connectionState (pcs w ! i) = Connecting)"

definition setTimeout :: "hook_env \<Rightarrow> nat \<Rightarrow> timer_action \<Rightarrow> hook_state \<Rightarrow> hook_state" where
  "setTimeout env delay act w =
     w\<lparr>timers := timers w @ [\<lparr>due = now w + delay, timer_env = env, timer_action = act\<rparr>]\<rparr>"

subsection \<open>Signalling\<close>

text \<open>
  \<open>sendSignalingMessage\<close>: nothing without a game and a player id; otherwise one POST.
  A failed POST is caught and logged, so the function never throws; the model records
  the request.
\<close>

definition sendSignalingMessage :: "hook_env \<Rightarrow> PeerId \<Rightarrow> signal_body \<Rightarrow> hook_state \<Rightarrow> hook_state" where
  "sendSignalingMessage env to body w =
     (case (gameId env, playerId env) of
        (Some g, Some me) \<Rightarrow>
          if g = [] \<or> me = [] then w
          else w\<lparr>outbox := outbox w @ [\<lparr>sig_game = g, sig_from = me, sig_to = to, sig_body = body\<rparr>]\<rparr>
      | _ \<Rightarrow> w)"

subsection \<open>The connection pool\<close>

definition removePeerConnection :: "PeerId \<Rightarrow> hook_state \<Rightarrow> hook_state" where
  "removePeerConnection peerId w =
     (let w1 = (case peerConnections w peerId of
                  None \<Rightarrow> w
                | Some i \<Rightarrow> (upd_pc i pc_close w)\<lparr>peerConnections := (peerConnections w)(peerId := None)\<rparr>)
      in w1\<lparr>connectionAttempts := (connectionAttempts w1)(peerId := None),
             pendingOffers := pendingOffers w1 - {peerId},
             isInitiator := (isInitiator w1)(peerId := None),
             connectionStates := (connectionStates w1)(peerId := None),
             establishedConnections := establishedConnections w1 - {peerId},
             iceCandidateQueue := (iceCandidateQueue w1)(peerId := None),
             remoteStreams := (remoteStreams w1)(peerId := None)\<rparr>)"

text \<open>
  The end of \<open>createPeerConnection\<close>: the candidates queued for the peer are handed to
  \<open>addIceCandidate\<close> of the object just created, in queue order, and the queue entry is
  deleted. An empty queue entry is left in place.
\<close>

definition drain_queue :: "PeerId \<Rightarrow> nat \<Rightarrow> hook_state \<Rightarrow> hook_state" where
  "drain_queue peerId i w =
     (case iceCandidateQueue w peerId of
        None \<Rightarrow> w
      | Some q \<Rightarrow>
          if q = [] then w
          else (upd_pc i (\<lambda>pc. pc\<lparr>pc_calls := pc_calls pc @ map AddIceCandidate q\<rparr>) w)
                 \<lparr>iceCandidateQueue := (iceCandidateQueue w)(peerId := None)\<rparr>)"

text \<open>
  \<open>createPeerConnection\<close> returns the state and the object: the existing one when it is
  connected or connecting, a new one otherwise, the existing one closed first.
\<close>

definition createPeerConnection :: "hook_env \<Rightarrow> PeerId \<Rightarrow> bool \<Rightarrow> hook_state \<Rightarrow> hook_state \<times> nat" where
  "createPeerConnection env peerId isInitiatingCall w =
     (case (if working w peerId then peerConnections w peerId else None) of
        Some i \<Rightarrow> (w, i)
      | None \<Rightarrow>
          let w1 = (case peerConnections w peerId of None \<Rightarrow> w | Some j \<Rightarrow> upd_pc j pc_close w);
              i = length (pcs w1);
              w2 = w1\<lparr>pcs := pcs w1 @ [new_pc env peerId],
                      peerConnections := (peerConnections w1)(peerId \<mapsto> i),
                      isInitiator := (isInitiator w1)(peerId \<mapsto> isInitiatingCall),
                      connectionStates := (connectionStates w1)(peerId \<mapsto> New)\<rparr>
          in (drain_queue peerId i w2, i))"

subsection \<open>Failure handling\<close>

text \<open>
  \<open>handleConnectionFailure\<close>. The retry branch writes the attempt counter and then calls
  \<open>removePeerConnection\<close>, which deletes the counter of the peer among the other
  entries. The retry itself is the timer's closure (\<open>RetryCall\<close>, run by \<open>run_timer\<close>).
\<close>

definition handleConnectionFailure :: "hook_env \<Rightarrow> PeerId \<Rightarrow> hook_state \<Rightarrow> hook_state" where
  "handleConnectionFailure env peerId w =
     (let attempts = (case connectionAttempts w peerId of None \<Rightarrow> 0 | Some n \<Rightarrow> n);
          wasInitiator = (case isInitiator w peerId of None \<Rightarrow> False | Some b \<Rightarrow> b)
      in if attempts < 3 \<and> wasInitiator
         then setTimeout env (2000 + attempts * 2000) (RetryCall peerId)
                (removePeerConnection peerId
                   (w\<lparr>connectionAttempts := (connectionAttempts w)(peerId \<mapsto> attempts + 1)\<rparr>))
         else removePeerConnection peerId w)"

subsection \<open>Calling and answering\<close>

text \<open>The catch block of \<open>initiateCall\<close>.\<close>

definition offer_failed :: "PeerId \<Rightarrow> hook_state \<Rightarrow> hook_state" where
  "offer_failed peerId w =
     removePeerConnection peerId (w\<lparr>pendingOffers := pendingOffers w - {peerId}\<rparr>)"

text \<open>The try block of \<open>initiateCall\<close>: create the offer, set it, post it.\<close>

definition send_offer :: "hook_env \<Rightarrow> rtc_outcome \<Rightarrow> PeerId \<Rightarrow> nat \<Rightarrow> hook_state \<Rightarrow> hook_state" where
  "send_offer env rtc peerId i w =
     (let w1 = upd_pc i (log_call CreateOffer) w
      in case createOffer_result rtc of
           None \<Rightarrow> offer_failed peerId w1
         | Some offer \<Rightarrow>
             let w2 = upd_pc i (log_call (SetLocalDescription offer)) w1
             in if setLocalDescription_ok rtc
                then sendSignalingMessage env peerId (OfferBody offer)
                       (upd_pc i (\<lambda>pc. pc\<lparr>localDescription := Some offer,
                                            signalingState := HaveLocalOffer\<rparr>) w2)
                else offer_failed peerId w2)"

definition initiateCall :: "hook_env \<Rightarrow> rtc_outcome \<Rightarrow> PeerId \<Rightarrow> hook_state \<Rightarrow> hook_state" where
  "initiateCall env rtc peerId w =
     (if localStream env = None \<or> \<not> truthy (gameId env) \<or> \<not> truthy (playerId env) then w
      else if peerId \<in> pendingOffers w then w
      else if working w peerId then w
      else case createPeerConnection env peerId True
                  (w\<lparr>pendingOffers := insert peerId (pendingOffers w)\<rparr>) of
             (w1, i) \<Rightarrow> send_offer env rtc peerId i w1)"

text \<open>
  \<open>handleOffer\<close> after its three guards: create the connection as the called side, set
  the offer as remote description, create the answer, set it, post it; any rejection
  removes the connection.
\<close>

definition answer_offer :: "hook_env \<Rightarrow> rtc_outcome \<Rightarrow> PeerId \<Rightarrow> description \<Rightarrow> hook_state \<Rightarrow> hook_state" where
  "answer_offer env rtc from offer w =
     (case createPeerConnection env from False w of
        (w1, i) \<Rightarrow>
          let w2 = upd_pc i (log_call (SetRemoteDescription offer)) w1
          in if \<not> setRemoteDescription_ok rtc then removePeerConnection from w2
             else
               let w3 = upd_pc i (\<lambda>pc. pc\<lparr>remoteDescription := Some offer,
                                             signalingState := HaveRemoteOffer\<rparr>) w2;
                   w4 = upd_pc i (log_call CreateAnswer) w3
               in (case createAnswer_result rtc of
                     None \<Rightarrow> removePeerConnection from w4
                   | Some answer \<Rightarrow>
                       let w5 = upd_pc i (log_call (SetLocalDescription answer)) w4
                       in if setLocalDescription_ok rtc
                          then sendSignalingMessage env from (AnswerBody answer)
                                 (upd_pc i (\<lambda>pc. pc\<lparr>localDescription := Some answer,
                                                      signalingState := Stable\<rparr>) w5)
                          else removePeerConnection from w5))"

definition handleOffer :: "hook_env \<Rightarrow> rtc_outcome \<Rightarrow> PeerId \<Rightarrow> description \<Rightarrow> hook_state \<Rightarrow> hook_state" where
  "handleOffer env rtc from offer w =
     (if localStream env = None \<or> \<not> truthy (gameId env) then w
      else if working w from then w
      else if from \<in> pendingOffers w \<and> js_less (playerId env) from then w
      else answer_offer env rtc from offer w)"

definition handleAnswer :: "rtc_outcome \<Rightarrow> PeerId \<Rightarrow> description \<Rightarrow> hook_state \<Rightarrow> hook_state" where
  "handleAnswer rtc from answer w =
     (case peerConnections w from of
        None \<Rightarrow> w
      | Some i \<Rightarrow>
          if signalingState (pcs w ! i) = HaveLocalOffer
          then let w1 = upd_pc i (log_call (SetRemoteDescription answer)) w
               in if setRemoteDescription_ok rtc
                  then (upd_pc i (\<lambda>pc. pc\<lparr>remoteDescription := Some answer,
                                            signalingState := Stable\<rparr>) w1)
                         \<lparr>pendingOffers := pendingOffers w1 - {from}\<rparr>
                  else removePeerConnection from w1
          else w)"

text \<open>The else branch of \<open>handleIceCandidate\<close>: push on the peer's queue.\<close>

definition enqueue_candidate :: "PeerId \<Rightarrow> candidate \<Rightarrow> hook_state \<Rightarrow> hook_state" where
  "enqueue_candidate from cand w =
     w\<lparr>iceCandidateQueue := (iceCandidateQueue w)
          (from \<mapsto> (case iceCandidateQueue w from of None \<Rightarrow> [] | Some q \<Rightarrow> q) @ [cand])\<rparr>"

definition handleIceCandidate :: "PeerId \<Rightarrow> candidate \<Rightarrow> hook_state \<Rightarrow> hook_state" where
  "handleIceCandidate from cand w =
     (case peerConnections w from of
        None \<Rightarrow> enqueue_candidate from cand w
      | Some i \<Rightarrow>
          if remoteDescription (pcs w ! i) \<noteq> None
          then upd_pc i (log_call (AddIceCandidate cand)) w
          else enqueue_candidate from cand w)"

definition handleSignalingMessage :: "hook_env \<Rightarrow> rtc_outcome \<Rightarrow> signal \<Rightarrow> hook_state \<Rightarrow> hook_state" where
  "handleSignalingMessage env rtc message w =
     (if playerId env = Some (sig_from message) then w
      else case sig_body message of
             OfferBody offer \<Rightarrow> handleOffer env rtc (sig_from message) offer w
           | AnswerBody answer \<Rightarrow> handleAnswer rtc (sig_from message) answer w
           | CandidateBody cand \<Rightarrow> handleIceCandidate (sig_from message) cand w
           | OtherBody \<Rightarrow> w)"

text \<open>
  One poll: the fetched messages are handled one after the other, in the order of the
  response. Each message comes with the browser's answers for its handler.
\<close>

fun handle_all :: "hook_env \<Rightarrow> (rtc_outcome \<times> signal) list \<Rightarrow> hook_state \<Rightarrow> hook_state" where
  "handle_all env [] w = w"
| "handle_all env ((rtc, message) # rest) w = handle_all env rest (handleSignalingMessage env rtc message w)"

definition pollSignalingMessages :: "hook_env \<Rightarrow> (rtc_outcome \<times> signal) list \<Rightarrow> hook_state \<Rightarrow> hook_state" where
  "pollSignalingMessages env fetched w =
     (if \<not> truthy (gameId env) \<or> \<not> truthy (playerId env) then w else handle_all env fetched w)"

text \<open>\<open>establishConnections\<close>: the loop over the peer ids with their index.\<close>

fun stagger_calls :: "hook_env \<Rightarrow> nat \<Rightarrow> PeerId list \<Rightarrow> hook_state \<Rightarrow> hook_state" where
  "stagger_calls env index [] w = w"
| "stagger_calls env index (peerId # rest) w =
     stagger_calls env (Suc index) rest
       (if peerId \<in> establishedConnections w then w
        else setTimeout env (index * 1500) (StaggerCall peerId) w)"

definition establishConnections :: "hook_env \<Rightarrow> PeerId list \<Rightarrow> hook_state \<Rightarrow> hook_state" where
  "establishConnections env peerIds w =
     (if localStream env = None \<or> \<not> truthy (gameId env) \<or> \<not> truthy (playerId env) \<or> peerIds = []
      then w
      else stagger_calls env 0 peerIds w)"

subsection \<open>Timers and browser events\<close>

text \<open>The bodies of the three timer closures.\<close>

definition run_timer :: "hook_env \<Rightarrow> rtc_outcome \<Rightarrow> timer_action \<Rightarrow> hook_state \<Rightarrow> hook_state" where
  "run_timer env rtc act w =
     (case act of
        GraceCheck i peerId \<Rightarrow>
          if connectionState (pcs w ! i) = Disconnected then handleConnectionFailure env peerId w else w
      | RetryCall peerId \<Rightarrow>
          if localStream env \<noteq> None \<and> peerConnections w peerId = None
          then initiateCall env rtc peerId w else w
      | StaggerCall peerId \<Rightarrow>
          if \<not> working w peerId then initiateCall env rtc peerId w else w)"

text \<open>
  The clock advances by \<open>elapse\<close>; \<open>fire_timer\<close> runs the pending timer at a position
  of the list once it is due, and removes it. A timer never runs before it is due, and
  no timer of the hook is ever cancelled.
\<close>

definition elapse :: "nat \<Rightarrow> hook_state \<Rightarrow> hook_state" where
  "elapse ms w = w\<lparr>now := now w + ms\<rparr>"

definition fire_timer :: "rtc_outcome \<Rightarrow> nat \<Rightarrow> hook_state \<Rightarrow> hook_state" where
  "fire_timer rtc k w =
     (if k < length (timers w) \<and> due (timers w ! k) \<le> now w
      then run_timer (timer_env (timers w ! k)) rtc (timer_action (timers w ! k))
             (w\<lparr>timers := take k (timers w) @ drop (Suc k) (timers w)\<rparr>)
      else w)"

text \<open>\<open>pc.onconnectionstatechange\<close> of the connection object \<open>i\<close>.\<close>

definition onconnectionstatechange :: "nat \<Rightarrow> hook_state \<Rightarrow> hook_state" where
  "onconnectionstatechange i w =
     (let pc = pcs w ! i; peerId = pc_peer pc; newState = connectionState pc
      in if connectionStates w peerId = Some newState then w
         else
           let w1 = w\<lparr>connectionStates := (connectionStates w)(peerId \<mapsto> newState)\<rparr>
           in if newState = Connected
              then w1\<lparr>connectionAttempts := (connectionAttempts w1)(peerId := None),
                      pendingOffers := pendingOffers w1 - {peerId},
                      establishedConnections := insert peerId (establishedConnections w1)\<rparr>
              else if newState = Failed
              then handleConnectionFailure (pc_env pc) peerId
                     (w1\<lparr>establishedConnections := establishedConnections w1 - {peerId}\<rparr>)
              else if newState = Disconnected
              then setTimeout (pc_env pc) 10000 (GraceCheck i peerId)
                     (w1\<lparr>establishedConnections := establishedConnections w1 - {peerId}\<rparr>)
              else w1)"

text \<open>
  The browser moves a connection object that is not closed to another connection state
  and fires the handler. Only \<open>close()\<close> makes an object closed.
\<close>

definition connection_state_event :: "nat \<Rightarrow> conn_state \<Rightarrow> hook_state \<Rightarrow> hook_state" where
  "connection_state_event i st w =
     (if i < length (pcs w) \<and> connectionState (pcs w ! i) \<noteq> Closed \<and> st \<noteq> Closed
         \<and> st \<noteq> connectionState (pcs w ! i)
      then onconnectionstatechange i (upd_pc i (\<lambda>pc. pc\<lparr>connectionState := st\<rparr>) w)
      else w)"

text \<open>\<open>pc.oniceconnectionstatechange\<close> with the ICE state \<open>failed\<close>.\<close>

definition ice_failed_event :: "nat \<Rightarrow> hook_state \<Rightarrow> hook_state" where
  "ice_failed_event i w =
     (if i < length (pcs w) \<and> connectionState (pcs w ! i) \<noteq> Closed
      then handleConnectionFailure (pc_env (pcs w ! i)) (pc_peer (pcs w ! i)) w
      else w)"

text \<open>\<open>pc.ontrack\<close> with the first stream of the event, if any.\<close>

definition ontrack :: "nat \<Rightarrow> media_stream option \<Rightarrow> hook_state \<Rightarrow> hook_state" where
  "ontrack i remoteStream w =
     (case remoteStream of
        None \<Rightarrow> w
      | Some s \<Rightarrow>
          if stream_active s \<and> (0 < videoTracks s \<or> 0 < audioTracks s)
          then w\<lparr>remoteStreams := (remoteStreams w)(pc_peer (pcs w ! i) \<mapsto> s)\<rparr>
          else w)"

definition track_event :: "nat \<Rightarrow> media_stream option \<Rightarrow> hook_state \<Rightarrow> hook_state" where
  "track_event i remoteStream w =
     (if i < length (pcs w) \<and> connectionState (pcs w ! i) \<noteq> Closed then ontrack i remoteStream w else w)"

text \<open>
  The cleanup of the unmount effect: every connection object of the pool is closed and
  the references are cleared. Pending timers and the remote streams are left alone.
\<close>

definition cleanup :: "hook_state \<Rightarrow> hook_state" where
  "cleanup w =
     w\<lparr>pcs := map (\<lambda>(i, pc). if i \<in> ran (peerConnections w) then pc_close pc else pc)
                (enumerate 0 (pcs w)),
       peerConnections := Map.empty, connectionAttempts := Map.empty, pendingOffers := {},
       isInitiator := Map.empty, connectionStates := Map.empty,
       establishedConnections := {}, iceCandidateQueue := Map.empty\<rparr>"
section \<open>Specification\<close>

subsection \<open>The pool and the connection objects\<close>

text \<open>
  The pool map and the objects agree: an entry of the map points to an existing object
  that was created for that peer and is not closed, and every object that is not closed
  is the entry of its peer.
\<close>

definition wf_pool :: "(PeerId \<rightharpoonup> nat) \<Rightarrow> RTCPeerConnection list \<Rightarrow> bool" where
  "wf_pool m ps \<longleftrightarrow>
     (\<forall>p i. m p = Some i \<longrightarrow> i < length ps \<and> pc_peer (ps ! i) = p \<and> connectionState (ps ! i) \<noteq> Closed) \<and>
     (\<forall>i. i < length ps \<longrightarrow> connectionState (ps ! i) \<noteq> Closed \<longrightarrow> m (pc_peer (ps ! i)) = Some i)"

definition pool_wf :: "hook_state \<Rightarrow> bool" where
  "pool_wf w = wf_pool (peerConnections w) (pcs w)"

text \<open>The connection objects for a peer that exist and are not closed.\<close>

definition live_pcs :: "hook_state \<Rightarrow> PeerId \<Rightarrow> nat set" where
  "live_pcs w p = {i. i < length (pcs w) \<and> pc_peer (pcs w ! i) = p \<and> connectionState (pcs w ! i) \<noteq> Closed}"

text \<open>
  The state \<open>createPeerConnection\<close> builds before it drains the queue, when it does not
  reuse the existing object.
\<close>

definition replaced :: "hook_env \<Rightarrow> PeerId \<Rightarrow> bool \<Rightarrow> hook_state \<Rightarrow> hook_state" where
  "replaced env p b w =
     (let w1 = (case peerConnections w p of None \<Rightarrow> w | Some j \<Rightarrow> upd_pc j pc_close w)
      in w1\<lparr>pcs := pcs w1 @ [new_pc env p],
             peerConnections := (peerConnections w1)(p \<mapsto> length (pcs w1)),
             isInitiator := (isInitiator w1)(p \<mapsto> b),
             connectionStates := (connectionStates w1)(p \<mapsto> New)\<rparr>)"

text \<open>
  The states the hook can be in: from the initial state, any sequence of polls, calls of
  the two exported functions, elapsing time, firing timers, browser events and cleanups,
  with any closure values and any answers of the browser.
\<close>

inductive reachable :: "hook_state \<Rightarrow> bool" where
  start: "reachable initial_state"
| poll: "reachable w \<Longrightarrow> reachable (pollSignalingMessages env fetched w)"
| call: "reachable w \<Longrightarrow> reachable (initiateCall env rtc peerId w)"
| establish: "reachable w \<Longrightarrow> reachable (establishConnections env peerIds w)"
| time: "reachable w \<Longrightarrow> reachable (elapse ms w)"
| timer: "reachable w \<Longrightarrow> reachable (fire_timer rtc k w)"
| state_change: "reachable w \<Longrightarrow> reachable (connection_state_event i st w)"
| ice_failed: "reachable w \<Longrightarrow> reachable (ice_failed_event i w)"
| track: "reachable w \<Longrightarrow> reachable (track_event i remoteStream w)"
| unmount: "reachable w \<Longrightarrow> reachable (cleanup w)"

subsection \<open>Roles after a glare\<close>

text \<open>
  An offer of the peer \<open>p\<close> arrives. The local side stays the caller when the offer is
  ignored (the state is unchanged) and the local side is recorded as initiator with its
  own offer pending. It becomes the called side when afterwards it is recorded as not
  the initiator, the pool holds a new connection object for \<open>p\<close> with the offer as
  remote description, and one answer to \<open>p\<close> has been posted.
\<close>

definition stays_initiator :: "hook_env \<Rightarrow> rtc_outcome \<Rightarrow> PeerId \<Rightarrow> description \<Rightarrow> hook_state \<Rightarrow> bool" where
  "stays_initiator env rtc p offer w \<longleftrightarrow>
     handleOffer env rtc p offer w = w \<and> isInitiator w p = Some True \<and> p \<in> pendingOffers w"

definition becomes_responder :: "hook_env \<Rightarrow> rtc_outcome \<Rightarrow> PeerId \<Rightarrow> description \<Rightarrow> hook_state \<Rightarrow> bool" where
  "becomes_responder env rtc p offer w \<longleftrightarrow>
     (let w' = handleOffer env rtc p offer w
      in isInitiator w' p = Some False \<and>
         peerConnections w' p = Some (length (pcs w)) \<and>
         remoteDescription (pcs w' ! length (pcs w)) = Some offer \<and>
         (\<exists>g me answer. gameId env = Some g \<and> playerId env = Some me \<and>
            outbox w' = outbox w @ [\<lparr>sig_game = g, sig_from = me, sig_to = p, sig_body = AnswerBody answer\<rparr>]))"

subsection \<open>What the hook holds for one peer\<close>

fun timer_peer :: "timer_action \<Rightarrow> PeerId" where
  "timer_peer (GraceCheck i p) = p"
| "timer_peer (RetryCall p) = p"
| "timer_peer (StaggerCall p) = p"

record peer_entries =
  pe_connection :: "RTCPeerConnection option"
  pe_attempts :: "nat option"
  pe_pending :: bool
  pe_initiator :: "bool option"
  pe_state :: "conn_state option"
  pe_established :: bool
  pe_queue :: "candidate list option"
  pe_stream :: "media_stream option"
  pe_timers :: "timer list"
  pe_sent :: "signal list"

text \<open>
  Everything keyed by the peer \<open>y\<close>: its connection object, its entries in the maps and
  sets, its remote stream, the timers about it and the messages posted to it.
\<close>

definition peer_view :: "hook_state \<Rightarrow> PeerId \<Rightarrow> peer_entries" where
  "peer_view w y =
     \<lparr>pe_connection = map_option (\<lambda>i. pcs w ! i) (peerConnections w y),
      pe_attempts = connectionAttempts w y,
      pe_pending = (y \<in> pendingOffers w),
      pe_initiator = isInitiator w y,
      pe_state = connectionStates w y,
      pe_established = (y \<in> establishedConnections w),
      pe_queue = iceCandidateQueue w y,
      pe_stream = remoteStreams w y,
      pe_timers = filter (\<lambda>t. timer_peer (timer_action t) = y) (timers w),
      pe_sent = filter (\<lambda>m. sig_to m = y) (outbox w)\<rparr>"

subsection \<open>Example runs\<close>

definition media :: media_stream where
  "media = \<lparr>stream_id = ''cam'', stream_active = True, videoTracks = 1, audioTracks = 1\<rparr>"

definition alice_env :: hook_env where
  "alice_env = \<lparr>localStream = Some media, gameId = Some ''game'', playerId = Some ''alice''\<rparr>"

definition bob_env :: hook_env where
  "bob_env = \<lparr>localStream = Some media, gameId = Some ''game'', playerId = Some ''bob''\<rparr>"

text \<open>Alice before \<open>startLocalStream\<close> has succeeded.\<close>

definition alice_no_media :: hook_env where
  "alice_no_media = \<lparr>localStream = None, gameId = Some ''game'', playerId = Some ''alice''\<rparr>"

definition offer_sdp :: description where
  "offer_sdp = \<lparr>sdp_type = OfferSdp, sdp_text = ''v=0 offer''\<rparr>"

definition answer_sdp :: description where
  "answer_sdp = \<lparr>sdp_type = AnswerSdp, sdp_text = ''v=0 answer''\<rparr>"

text \<open>A browser that accepts every call.\<close>

definition rtc_ok :: rtc_outcome where
  "rtc_ok = \<lparr>createOffer_result = Some offer_sdp, createAnswer_result = Some answer_sdp,
              setLocalDescription_ok = True, setRemoteDescription_ok = True\<rparr>"

definition offer_to_bob :: signal where
  "offer_to_bob = \<lparr>sig_game = ''game'', sig_from = ''alice'', sig_to = ''bob'', sig_body = OfferBody offer_sdp\<rparr>"

definition candidate_from_bob :: signal where
  "candidate_from_bob =
     \<lparr>sig_game = ''game'', sig_from = ''bob'', sig_to = ''alice'', sig_body = CandidateBody ''cand-1''\<rparr>"

text \<open>Alice has called Bob, Bob has called Alice; neither has heard from the other.\<close>

definition alice_calling :: hook_state where
  "alice_calling = initiateCall alice_env rtc_ok ''bob'' initial_state"

definition bob_calling :: hook_state where
  "bob_calling = initiateCall bob_env rtc_ok ''alice'' initial_state"

definition alice_two_calls :: hook_state where
  "alice_two_calls = initiateCall alice_env rtc_ok ''carol'' alice_calling"

text \<open>
  The connection object of Alice's call while the offer is out; the same object once
  Bob's answer is set, in a given connection state; and once it is closed after that.
\<close>

definition open_call :: RTCPeerConnection where
  "open_call =
     \<lparr>pc_peer = ''bob'', pc_env = alice_env, connectionState = New, signalingState = HaveLocalOffer,
      localDescription = Some offer_sdp, remoteDescription = None,
      pc_calls = [AddTrack, AddTrack, CreateOffer, SetLocalDescription offer_sdp]\<rparr>"

definition answered_call :: "conn_state \<Rightarrow> RTCPeerConnection" where
  "answered_call st =
     \<lparr>pc_peer = ''bob'', pc_env = alice_env, connectionState = st, signalingState = Stable,
      localDescription = Some offer_sdp, remoteDescription = Some answer_sdp,
      pc_calls = [AddTrack, AddTrack, CreateOffer, SetLocalDescription offer_sdp,
                  SetRemoteDescription answer_sdp]\<rparr>"

definition closed_call :: RTCPeerConnection where
  "closed_call =
     \<lparr>pc_peer = ''bob'', pc_env = alice_env, connectionState = Closed, signalingState = SigClosed,
      localDescription = Some offer_sdp, remoteDescription = Some answer_sdp,
      pc_calls = [AddTrack, AddTrack, CreateOffer, SetLocalDescription offer_sdp,
                  SetRemoteDescription answer_sdp, Close]\<rparr>"

text \<open>
  Alice's call to Bob fails again and again. Each time Bob's answer arrives, the browser
  reports the connection in the pool as connecting and then as failed, two seconds pass,
  and the pending timer fires.
\<close>

definition state_event_current :: "PeerId \<Rightarrow> conn_state \<Rightarrow> hook_state \<Rightarrow> hook_state" where
  "state_event_current p st w =
     (case peerConnections w p of None \<Rightarrow> w | Some i \<Rightarrow> connection_state_event i st w)"

definition connection_fails :: "PeerId \<Rightarrow> hook_state \<Rightarrow> hook_state" where
  "connection_fails p w =
     state_event_current p Failed
       (state_event_current p Connecting (handleAnswer rtc_ok p answer_sdp w))"

fun retry_run :: "nat \<Rightarrow> hook_state" where
  "retry_run 0 = alice_calling"
| "retry_run (Suc n) = fire_timer rtc_ok 0 (elapse 2000 (connection_fails ''bob'' (retry_run n)))"

text \<open>The state after \<open>n\<close> such failures, written out.\<close>

definition retry_state :: "nat \<Rightarrow> hook_state" where
  "retry_state n =
     \<lparr>pcs = replicate n closed_call @ [open_call],
      peerConnections = [''bob'' \<mapsto> n], connectionAttempts = Map.empty,
      pendingOffers = {''bob''}, isInitiator = [''bob'' \<mapsto> True],
      connectionStates = [''bob'' \<mapsto> New], establishedConnections = {},
      iceCandidateQueue = Map.empty, remoteStreams = Map.empty,
      outbox = replicate (Suc n) offer_to_bob, timers = [], now = 2000 * n\<rparr>"

text \<open>The state after \<open>n\<close> failures and one more, while the retry timer is pending.\<close>

definition retry_waiting :: "nat \<Rightarrow> hook_state" where
  "retry_waiting n =
     \<lparr>pcs = replicate (Suc n) closed_call,
      peerConnections = Map.empty, connectionAttempts = Map.empty,
      pendingOffers = {}, isInitiator = Map.empty,
      connectionStates = Map.empty, establishedConnections = {},
      iceCandidateQueue = Map.empty, remoteStreams = Map.empty,
      outbox = replicate (Suc n) offer_to_bob,
      timers = [\<lparr>due = 2000 * n + 2000, timer_env = alice_env, timer_action = RetryCall ''bob''\<rparr>],
      now = 2000 * n\<rparr>"

text \<open>The grace timer of the first connection object of Alice, due at a given time.\<close>

definition grace_timer :: "nat \<Rightarrow> timer" where
  "grace_timer t = \<lparr>due = t, timer_env = alice_env, timer_action = GraceCheck 0 ''bob''\<rparr>"

text \<open>
  Bob answers Alice's call and the connection comes up. Then it drops at time 0, is back
  at 5 s, drops again at 9 s, and at 10 s the timer of the first drop fires.
\<close>

definition alice_connected :: hook_state where
  "alice_connected =
     connection_state_event 0 Connected
       (connection_state_event 0 Connecting (handleAnswer rtc_ok ''bob'' answer_sdp alice_calling))"

definition flap_drop1 :: hook_state where
  "flap_drop1 = connection_state_event 0 Disconnected alice_connected"

definition flap_back :: hook_state where
  "flap_back = connection_state_event 0 Connected (elapse 5000 flap_drop1)"

definition flap_drop2 :: hook_state where
  "flap_drop2 = connection_state_event 0 Disconnected (elapse 4000 flap_back)"

definition flap_fired :: hook_state where
  "flap_fired = fire_timer rtc_ok 0 (elapse 1000 flap_drop2)"

text \<open>
  Candidates that arrive early. On Bob's side two candidates of Alice arrive before her
  offer. On Alice's side a candidate of Bob arrives after her call and before his answer,
  and a second one after the answer.
\<close>

definition bob_early :: hook_state where
  "bob_early = handleIceCandidate ''alice'' ''cand-2'' (handleIceCandidate ''alice'' ''cand-1'' initial_state)"

definition bob_answering :: hook_state where
  "bob_answering = handleOffer bob_env rtc_ok ''alice'' offer_sdp bob_early"

definition alice_queued :: hook_state where
  "alice_queued = handleIceCandidate ''bob'' ''cand-1'' alice_calling"

definition alice_answered :: hook_state where
  "alice_answered = handleAnswer rtc_ok ''bob'' answer_sdp alice_queued"

definition alice_late :: hook_state where
  "alice_late = handleIceCandidate ''bob'' ''cand-2'' alice_answered"





section \<open>Proofs\<close>

subsection \<open>The pool invariant is kept by every operation\<close>

lemma wf_pool_update:
  assumes "wf_pool m ps"
    and "pc_peer (f (ps ! i)) = pc_peer (ps ! i)"
    and "(connectionState (f (ps ! i)) = Closed) = (connectionState (ps ! i) = Closed)"
  shows "wf_pool m (ps[i := f (ps ! i)])"
  unfolding wf_pool_def
proof (intro conjI allI impI)
  fix p j assume j: "m p = Some j"
  with assms(1) have *: "j < length ps" "pc_peer (ps ! j) = p" "connectionState (ps ! j) \<noteq> Closed"
    by (auto simp: wf_pool_def)
  show "j < length (ps[i := f (ps ! i)])" using * by simp
  show "pc_peer (ps[i := f (ps ! i)] ! j) = p" using * assms(2) by (cases "i = j") simp_all
  show "connectionState (ps[i := f (ps ! i)] ! j) \<noteq> Closed" using * assms(3) by (cases "i = j") simp_all
next
  fix j assume a: "j < length (ps[i := f (ps ! i)])" "connectionState (ps[i := f (ps ! i)] ! j) \<noteq> Closed"
  then have "j < length ps" "connectionState (ps ! j) \<noteq> Closed"
    using assms(3) by (cases "i = j"; simp)+
  with assms(1) have "m (pc_peer (ps ! j)) = Some j" by (simp add: wf_pool_def)
  then show "m (pc_peer (ps[i := f (ps ! i)] ! j)) = Some j"
    using a(1) assms(2) by (cases "i = j") simp_all
qed

lemma closed_pc_close [simp]: "connectionState (pc_close pc) = Closed"
  by (simp add: pc_close_def log_call_def)

lemma pc_peer_pc_close [simp]: "pc_peer (pc_close pc) = pc_peer pc"
  by (simp add: pc_close_def log_call_def)

lemma wf_pool_remove:
  assumes "wf_pool m ps" "m p = Some i"
  shows "wf_pool (m(p := None)) (ps[i := pc_close (ps ! i)])"
  unfolding wf_pool_def
proof (intro conjI allI impI)
  from assms have i: "i < length ps" "pc_peer (ps ! i) = p" by (auto simp: wf_pool_def)
  fix q j assume "(m(p := None)) q = Some j"
  then have q: "q \<noteq> p" "m q = Some j" by (auto split: if_splits)
  with assms(1) have *: "j < length ps" "pc_peer (ps ! j) = q" "connectionState (ps ! j) \<noteq> Closed"
    by (auto simp: wf_pool_def)
  with q i have ne: "i \<noteq> j" by auto
  show "j < length (ps[i := pc_close (ps ! i)])" using * by simp
  show "pc_peer (ps[i := pc_close (ps ! i)] ! j) = q" using * ne by simp
  show "connectionState (ps[i := pc_close (ps ! i)] ! j) \<noteq> Closed" using * ne by simp
next
  from assms have i: "i < length ps" "pc_peer (ps ! i) = p" by (auto simp: wf_pool_def)
  fix j assume a: "j < length (ps[i := pc_close (ps ! i)])" "connectionState (ps[i := pc_close (ps ! i)] ! j) \<noteq> Closed"
  have ne: "i \<noteq> j" using a i by auto
  with a have "j < length ps" "connectionState (ps ! j) \<noteq> Closed" by simp_all
  with assms(1) have k: "m (pc_peer (ps ! j)) = Some j" by (simp add: wf_pool_def)
  with assms(2) ne have "pc_peer (ps ! j) \<noteq> p" by auto
  with k ne show "(m(p := None)) (pc_peer (ps[i := pc_close (ps ! i)] ! j)) = Some j" by simp
qed

lemma wf_pool_add:
  assumes "wf_pool m ps" "m p = None" "pc_peer n = p" "connectionState n \<noteq> Closed"
  shows "wf_pool (m(p \<mapsto> length ps)) (ps @ [n])"
proof -
  have entries: "j < length (ps @ [n]) \<and> pc_peer ((ps @ [n]) ! j) = q \<and> connectionState ((ps @ [n]) ! j) \<noteq> Closed"
    if q: "(m(p \<mapsto> length ps)) q = Some j" for q j
  proof -
    from q consider "q = p" "j = length ps" | "q \<noteq> p" "m q = Some j"
      by (auto split: if_splits)
    then show ?thesis
    proof cases
      case 1
      then show ?thesis using assms(3,4) by simp
    next
      case 2
      with assms(1) have "j < length ps" "pc_peer (ps ! j) = q" "connectionState (ps ! j) \<noteq> Closed"
        by (auto simp: wf_pool_def)
      then show ?thesis by (simp add: nth_append)
    qed
  qed
  have live: "(m(p \<mapsto> length ps)) (pc_peer ((ps @ [n]) ! j)) = Some j"
    if a: "j < length (ps @ [n])" "connectionState ((ps @ [n]) ! j) \<noteq> Closed" for j
  proof (cases "j < length ps")
    case True
    with a assms(1) have k: "m (pc_peer (ps ! j)) = Some j" by (simp add: wf_pool_def nth_append)
    with assms(2) have "pc_peer (ps ! j) \<noteq> p" by auto
    with k True show ?thesis by (simp add: nth_append)
  next
    case False
    with a(1) have "j = length ps" by simp
    then show ?thesis using assms(3) by simp
  qed
  show ?thesis unfolding wf_pool_def using entries live by blast
qed

lemma wf_pool_replace:
  assumes "wf_pool m ps" "pc_peer n = p" "connectionState n \<noteq> Closed"
  shows "wf_pool (m(p \<mapsto> length ps))
           ((case m p of None \<Rightarrow> ps | Some j \<Rightarrow> ps[j := pc_close (ps ! j)]) @ [n])"
proof (cases "m p")
  case None
  with wf_pool_add[OF assms(1) None assms(2,3)] show ?thesis by simp
next
  case (Some j)
  have "wf_pool ((m(p := None))(p \<mapsto> length (ps[j := pc_close (ps ! j)]))) (ps[j := pc_close (ps ! j)] @ [n])"
    by (rule wf_pool_add[OF wf_pool_remove[OF assms(1) Some] _ assms(2,3)]) simp
  with Some show ?thesis by simp
qed

lemma pool_wf_fields [simp]:
  "pool_wf (w\<lparr>connectionAttempts := a\<rparr>) = pool_wf w"
  "pool_wf (w\<lparr>pendingOffers := b\<rparr>) = pool_wf w"
  "pool_wf (w\<lparr>isInitiator := c\<rparr>) = pool_wf w"
  "pool_wf (w\<lparr>connectionStates := d\<rparr>) = pool_wf w"
  "pool_wf (w\<lparr>establishedConnections := e\<rparr>) = pool_wf w"
  "pool_wf (w\<lparr>iceCandidateQueue := f\<rparr>) = pool_wf w"
  "pool_wf (w\<lparr>remoteStreams := g\<rparr>) = pool_wf w"
  "pool_wf (w\<lparr>outbox := h\<rparr>) = pool_wf w"
  "pool_wf (w\<lparr>timers := k\<rparr>) = pool_wf w"
  "pool_wf (w\<lparr>now := n\<rparr>) = pool_wf w"
  by (simp_all add: pool_wf_def)

lemma pool_wf_upd_pc:
  assumes "pool_wf w"
    and "pc_peer (f (pcs w ! i)) = pc_peer (pcs w ! i)"
    and "(connectionState (f (pcs w ! i)) = Closed) = (connectionState (pcs w ! i) = Closed)"
  shows "pool_wf (upd_pc i f w)"
  using wf_pool_update[of "peerConnections w" "pcs w" f i] assms
  by (simp add: pool_wf_def upd_pc_def)

lemma pool_wf_log_call: "pool_wf w \<Longrightarrow> pool_wf (upd_pc i (log_call c) w)"
  by (rule pool_wf_upd_pc) (simp_all add: log_call_def)

lemma pool_wf_setTimeout [simp]: "pool_wf (setTimeout env d a w) = pool_wf w"
  by (simp add: pool_wf_def setTimeout_def)

lemma pool_wf_sendSignalingMessage [simp]: "pool_wf (sendSignalingMessage env to body w) = pool_wf w"
  by (simp add: pool_wf_def sendSignalingMessage_def split: option.splits)

lemma pcs_removePeerConnection:
  "pcs (removePeerConnection p w) =
     (case peerConnections w p of None \<Rightarrow> pcs w | Some i \<Rightarrow> (pcs w)[i := pc_close (pcs w ! i)])"
  by (cases "peerConnections w p") (simp_all add: removePeerConnection_def upd_pc_def)

lemma peerConnections_removePeerConnection:
  "peerConnections (removePeerConnection p w) = (peerConnections w)(p := None)"
  by (cases "peerConnections w p") (auto simp add: removePeerConnection_def upd_pc_def)

lemma pool_wf_removePeerConnection:
  assumes "pool_wf w" shows "pool_wf (removePeerConnection p w)"
proof (cases "peerConnections w p")
  case None
  then have "(peerConnections w)(p := None) = peerConnections w" by (rule fun_upd_idem)
  with assms None show ?thesis
    by (simp add: pool_wf_def pcs_removePeerConnection peerConnections_removePeerConnection)
next
  case (Some i)
  with wf_pool_remove[of "peerConnections w" "pcs w" p i] assms show ?thesis
    by (simp add: pool_wf_def pcs_removePeerConnection peerConnections_removePeerConnection)
qed

lemma pool_wf_drain_queue: "pool_wf w \<Longrightarrow> pool_wf (drain_queue p i w)"
proof -
  assume wf: "pool_wf w"
  have "pool_wf (upd_pc i (\<lambda>pc. pc\<lparr>pc_calls := pc_calls pc @ map AddIceCandidate q\<rparr>) w)" for q
    by (rule pool_wf_upd_pc[OF wf]) simp_all
  then show ?thesis using wf
    by (simp add: drain_queue_def pool_wf_def split: option.splits)
qed

lemma pool_wf_createPeerConnection:
  assumes "pool_wf w" shows "pool_wf (fst (createPeerConnection env p b w))"
proof (cases "working w p")
  case True
  then show ?thesis using assms
    by (auto simp: createPeerConnection_def working_def split: option.splits)
next
  case False
  let ?w1 = "case peerConnections w p of None \<Rightarrow> w | Some j \<Rightarrow> upd_pc j pc_close w"
  let ?w2 = "?w1\<lparr>pcs := pcs ?w1 @ [new_pc env p],
                 peerConnections := (peerConnections ?w1)(p \<mapsto> length (pcs ?w1)),
                 isInitiator := (isInitiator ?w1)(p \<mapsto> b),
                 connectionStates := (connectionStates ?w1)(p \<mapsto> New)\<rparr>"
  have "wf_pool ((peerConnections w)(p \<mapsto> length (pcs w)))
          ((case peerConnections w p of None \<Rightarrow> pcs w | Some j \<Rightarrow> (pcs w)[j := pc_close (pcs w ! j)]) @ [new_pc env p])"
    by (rule wf_pool_replace) (use assms in \<open>simp_all add: pool_wf_def new_pc_def\<close>)
  then have "pool_wf ?w2"
    by (cases "peerConnections w p") (simp_all add: pool_wf_def upd_pc_def)
  then have "pool_wf (drain_queue p (length (pcs ?w1)) ?w2)" by (rule pool_wf_drain_queue)
  with False show ?thesis
    by (simp add: createPeerConnection_def Let_def)
qed

lemma pool_wf_handleConnectionFailure:
  "pool_wf w \<Longrightarrow> pool_wf (handleConnectionFailure env p w)"
  by (simp add: handleConnectionFailure_def Let_def pool_wf_removePeerConnection)

lemma pool_wf_offer_failed: "pool_wf w \<Longrightarrow> pool_wf (offer_failed p w)"
  by (simp add: offer_failed_def pool_wf_removePeerConnection)

lemma pool_wf_set_local:
  "pool_wf w \<Longrightarrow> pool_wf (upd_pc i (\<lambda>pc. pc\<lparr>localDescription := d, signalingState := s\<rparr>) w)"
  by (rule pool_wf_upd_pc) simp_all

lemma pool_wf_set_remote:
  "pool_wf w \<Longrightarrow> pool_wf (upd_pc i (\<lambda>pc. pc\<lparr>remoteDescription := d, signalingState := s\<rparr>) w)"
  by (rule pool_wf_upd_pc) simp_all

lemma pool_wf_send_offer: "pool_wf w \<Longrightarrow> pool_wf (send_offer env rtc p i w)"
  by (simp add: send_offer_def Let_def pool_wf_log_call pool_wf_offer_failed pool_wf_set_local
      split: option.splits)

lemma pool_wf_initiateCall: "pool_wf w \<Longrightarrow> pool_wf (initiateCall env rtc p w)"
proof -
  assume wf: "pool_wf w"
  obtain w1 i where c: "createPeerConnection env p True (w\<lparr>pendingOffers := insert p (pendingOffers w)\<rparr>) = (w1, i)"
    by (cases "createPeerConnection env p True (w\<lparr>pendingOffers := insert p (pendingOffers w)\<rparr>)")
  from wf have "pool_wf (w\<lparr>pendingOffers := insert p (pendingOffers w)\<rparr>)" by simp
  from pool_wf_createPeerConnection[OF this, of env p True] c have "pool_wf w1" by simp
  then show ?thesis using wf
    by (simp add: initiateCall_def c pool_wf_send_offer)
qed

lemma pool_wf_answer_offer: "pool_wf w \<Longrightarrow> pool_wf (answer_offer env rtc p offer w)"
proof -
  assume wf: "pool_wf w"
  obtain w1 i where c: "createPeerConnection env p False w = (w1, i)" by (cases "createPeerConnection env p False w")
  with pool_wf_createPeerConnection[OF wf, of env p False] have "pool_wf w1" by simp
  then show ?thesis
    by (simp add: answer_offer_def c Let_def pool_wf_log_call pool_wf_removePeerConnection
        pool_wf_set_local pool_wf_set_remote split: option.splits)
qed

lemma pool_wf_handleOffer: "pool_wf w \<Longrightarrow> pool_wf (handleOffer env rtc p offer w)"
  by (simp add: handleOffer_def pool_wf_answer_offer)

lemma pool_wf_handleAnswer: "pool_wf w \<Longrightarrow> pool_wf (handleAnswer rtc p answer w)"
  by (simp add: handleAnswer_def Let_def pool_wf_log_call pool_wf_removePeerConnection
      pool_wf_set_remote split: option.splits)

lemma pool_wf_handleIceCandidate: "pool_wf w \<Longrightarrow> pool_wf (handleIceCandidate p c w)"
  by (simp add: handleIceCandidate_def enqueue_candidate_def pool_wf_log_call split: option.splits)

lemma pool_wf_handleSignalingMessage: "pool_wf w \<Longrightarrow> pool_wf (handleSignalingMessage env rtc m w)"
  by (simp add: handleSignalingMessage_def pool_wf_handleOffer pool_wf_handleAnswer
      pool_wf_handleIceCandidate split: signal_body.splits)

lemma pool_wf_handle_all: "pool_wf w \<Longrightarrow> pool_wf (handle_all env ms w)"
  by (induction env ms w rule: handle_all.induct) (simp_all add: pool_wf_handleSignalingMessage)

lemma pool_wf_pollSignalingMessages: "pool_wf w \<Longrightarrow> pool_wf (pollSignalingMessages env ms w)"
  by (simp add: pollSignalingMessages_def pool_wf_handle_all)

lemma pool_wf_stagger_calls: "pool_wf w \<Longrightarrow> pool_wf (stagger_calls env k ps w)"
  by (induction env k ps w rule: stagger_calls.induct) simp_all

lemma pool_wf_establishConnections: "pool_wf w \<Longrightarrow> pool_wf (establishConnections env ps w)"
  by (simp add: establishConnections_def pool_wf_stagger_calls)

lemma pool_wf_run_timer: "pool_wf w \<Longrightarrow> pool_wf (run_timer env rtc a w)"
  by (simp add: run_timer_def pool_wf_handleConnectionFailure pool_wf_initiateCall
      split: timer_action.splits)

lemma pool_wf_elapse: "pool_wf w \<Longrightarrow> pool_wf (elapse ms w)"
  by (simp add: elapse_def)

lemma pool_wf_fire_timer: "pool_wf w \<Longrightarrow> pool_wf (fire_timer rtc k w)"
  by (simp add: fire_timer_def pool_wf_run_timer)

lemma pool_wf_onconnectionstatechange: "pool_wf w \<Longrightarrow> pool_wf (onconnectionstatechange i w)"
  by (simp add: onconnectionstatechange_def Let_def pool_wf_handleConnectionFailure)

lemma pool_wf_connection_state_event: "pool_wf w \<Longrightarrow> pool_wf (connection_state_event i st w)"
proof -
  assume wf: "pool_wf w"
  have "pool_wf (upd_pc i (\<lambda>pc. pc\<lparr>connectionState := st\<rparr>) w)"
    if "connectionState (pcs w ! i) \<noteq> Closed" "st \<noteq> Closed"
    using that by (intro pool_wf_upd_pc[OF wf]) simp_all
  then show ?thesis using wf
    by (simp add: connection_state_event_def pool_wf_onconnectionstatechange)
qed

lemma pool_wf_ice_failed_event: "pool_wf w \<Longrightarrow> pool_wf (ice_failed_event i w)"
  by (simp add: ice_failed_event_def pool_wf_handleConnectionFailure)

lemma pool_wf_track_event: "pool_wf w \<Longrightarrow> pool_wf (track_event i s w)"
  by (simp add: track_event_def ontrack_def split: option.splits)

lemma pool_wf_cleanup: "pool_wf w \<Longrightarrow> pool_wf (cleanup w)"
proof -
  assume wf: "pool_wf w"
  have "connectionState (map (\<lambda>(i, pc). if i \<in> ran (peerConnections w) then pc_close pc else pc)
                           (enumerate 0 (pcs w)) ! j) = Closed" if j: "j < length (pcs w)" for j
  proof (cases "connectionState (pcs w ! j) = Closed")
    case True
    with j show ?thesis by (simp add: nth_enumerate_eq)
  next
    case False
    with wf j have "peerConnections w (pc_peer (pcs w ! j)) = Some j" by (simp add: pool_wf_def wf_pool_def)
    then have "j \<in> ran (peerConnections w)" by (auto simp: ran_def)
    with j show ?thesis by (simp add: nth_enumerate_eq)
  qed
  then show ?thesis by (simp add: cleanup_def pool_wf_def wf_pool_def)
qed

lemma pool_wf_initial: "pool_wf initial_state"
  by (simp add: initial_state_def pool_wf_def wf_pool_def)

lemma pool_wfD1:
  "pool_wf w \<Longrightarrow> peerConnections w p = Some i \<Longrightarrow>
     i < length (pcs w) \<and> pc_peer (pcs w ! i) = p \<and> connectionState (pcs w ! i) \<noteq> Closed"
  unfolding pool_wf_def wf_pool_def by blast

lemma pool_wfD2:
  "pool_wf w \<Longrightarrow> i < length (pcs w) \<Longrightarrow> connectionState (pcs w ! i) \<noteq> Closed \<Longrightarrow>
     peerConnections w (pc_peer (pcs w ! i)) = Some i"
  unfolding pool_wf_def wf_pool_def by blast

lemma live_pcs_pool:
  assumes "pool_wf w"
  shows "live_pcs w p = (case peerConnections w p of None \<Rightarrow> {} | Some i \<Rightarrow> {i})"
proof (cases "peerConnections w p")
  case None
  have "i \<notin> live_pcs w p" for i
  proof
    assume "i \<in> live_pcs w p"
    then have "i < length (pcs w)" "pc_peer (pcs w ! i) = p" "connectionState (pcs w ! i) \<noteq> Closed"
      by (simp_all add: live_pcs_def)
    with pool_wfD2[OF assms, of i] have "peerConnections w p = Some i" by simp
    with None show False by simp
  qed
  then have "live_pcs w p = {}" by blast
  with None show ?thesis by simp
next
  case (Some i)
  with pool_wfD1[OF assms Some] have "i \<in> live_pcs w p" by (simp add: live_pcs_def)
  moreover have "j = i" if "j \<in> live_pcs w p" for j
  proof -
    from that have "j < length (pcs w)" "pc_peer (pcs w ! j) = p" "connectionState (pcs w ! j) \<noteq> Closed"
      by (simp_all add: live_pcs_def)
    with pool_wfD2[OF assms, of j] have "peerConnections w p = Some j" by simp
    with Some show ?thesis by simp
  qed
  ultimately have "live_pcs w p = {i}" by blast
  with Some show ?thesis by simp
qed

lemma drain_queue_simps [simp]:
  "peerConnections (drain_queue p i w) = peerConnections w"
  "length (pcs (drain_queue p i w)) = length (pcs w)"
  "isInitiator (drain_queue p i w) = isInitiator w"
  "pendingOffers (drain_queue p i w) = pendingOffers w"
  "outbox (drain_queue p i w) = outbox w"
  by (simp_all add: drain_queue_def upd_pc_def split: option.splits)

lemma drain_queue_nth [simp]:
  "connectionState (pcs (drain_queue p i w) ! j) = connectionState (pcs w ! j)"
  "pc_peer (pcs (drain_queue p i w) ! j) = pc_peer (pcs w ! j)"
proof -
  have "connectionState (pcs (drain_queue p i w) ! j) = connectionState (pcs w ! j)
      \<and> pc_peer (pcs (drain_queue p i w) ! j) = pc_peer (pcs w ! j)"
  proof (cases "iceCandidateQueue w p")
    case None
    then show ?thesis by (simp add: drain_queue_def)
  next
    case (Some q)
    show ?thesis
    proof (cases "i = j \<and> j < length (pcs w)")
      case True
      then show ?thesis by (simp add: drain_queue_def upd_pc_def Some)
    next
      case False
      then have "(pcs w)[i := x] ! j = pcs w ! j" for x
        by (cases "i = j") (simp_all add: list_update_beyond)
      then show ?thesis by (simp add: drain_queue_def upd_pc_def Some)
    qed
  qed
  then show "connectionState (pcs (drain_queue p i w) ! j) = connectionState (pcs w ! j)"
    and "pc_peer (pcs (drain_queue p i w) ! j) = pc_peer (pcs w ! j)" by simp_all
qed

lemma createPeerConnection_new:
  "\<not> working w p \<Longrightarrow>
     createPeerConnection env p b w = (drain_queue p (length (pcs w)) (replaced env p b w), length (pcs w))"
  by (cases "peerConnections w p") (simp_all add: createPeerConnection_def replaced_def upd_pc_def Let_def)

lemma createPeerConnection_reuse:
  "working w p \<Longrightarrow> peerConnections w p = Some j \<Longrightarrow> createPeerConnection env p b w = (w, j)"
  by (simp add: createPeerConnection_def)

lemma working_entry: "working w p \<Longrightarrow> \<exists>j. peerConnections w p = Some j"
  by (cases "peerConnections w p") (simp_all add: working_def)

lemma replaced_simps [simp]:
  "peerConnections (replaced env p b w) = (peerConnections w)(p \<mapsto> length (pcs w))"
  "pcs (replaced env p b w) =
     (case peerConnections w p of None \<Rightarrow> pcs w | Some j \<Rightarrow> (pcs w)[j := pc_close (pcs w ! j)]) @ [new_pc env p]"
  "isInitiator (replaced env p b w) = (isInitiator w)(p \<mapsto> b)"
  "pendingOffers (replaced env p b w) = pendingOffers w"
  "outbox (replaced env p b w) = outbox w"
  by (cases "peerConnections w p"; simp add: replaced_def upd_pc_def Let_def)+

lemma createPeerConnection_result:
  assumes wf: "pool_wf w" and c: "createPeerConnection env p b w = (w', i)"
  shows "peerConnections w' p = Some i"
    and "working w p \<Longrightarrow> w' = w"
    and "peerConnections w p = Some j \<Longrightarrow> j \<noteq> i \<Longrightarrow> connectionState (pcs w' ! j) = Closed"
proof -
  show "peerConnections w' p = Some i"
  proof (cases "working w p")
    case True
    then obtain k where k: "peerConnections w p = Some k" using working_entry by blast
    from createPeerConnection_reuse[OF True k, of env b] c k show ?thesis by simp
  next
    case False
    from createPeerConnection_new[OF False, of env b] c show ?thesis by auto
  qed
  show "w' = w" if "working w p"
  proof -
    from that obtain k where k: "peerConnections w p = Some k" using working_entry by blast
    from createPeerConnection_reuse[OF that k, of env b] c show ?thesis by simp
  qed
  show "connectionState (pcs w' ! j) = Closed" if j: "peerConnections w p = Some j" "j \<noteq> i"
  proof (cases "working w p")
    case True
    from createPeerConnection_reuse[OF True j(1), of env b] c j(2) show ?thesis by simp
  next
    case False
    from pool_wfD1[OF wf j(1)] have lt: "j < length (pcs w)" by simp
    from createPeerConnection_new[OF False, of env b] c
    have "w' = drain_queue p (length (pcs w)) (replaced env p b w)" by simp
    then show ?thesis using lt j(1) by (simp add: nth_append)
  qed
qed

lemma reachable_pool_wf: "reachable w \<Longrightarrow> pool_wf w"
proof (induction rule: reachable.induct)
  case start
  show ?case by (rule pool_wf_initial)
next
  case (poll w env fetched)
  then show ?case by (simp add: pool_wf_pollSignalingMessages)
next
  case (call w env rtc peerId)
  then show ?case by (simp add: pool_wf_initiateCall)
next
  case (establish w env peerIds)
  then show ?case by (simp add: pool_wf_establishConnections)
next
  case (time w ms)
  then show ?case by (simp add: pool_wf_elapse)
next
  case (timer w rtc k)
  then show ?case by (simp add: pool_wf_fire_timer)
next
  case (state_change w i st)
  then show ?case by (simp add: pool_wf_connection_state_event)
next
  case (ice_failed w i)
  then show ?case by (simp add: pool_wf_ice_failed_event)
next
  case (track w i remoteStream)
  then show ?case by (simp add: pool_wf_track_event)
next
  case (unmount w)
  then show ?case by (simp add: pool_wf_cleanup)
qed

lemma upd_pc_simps [simp]:
  "pcs (upd_pc i f w) = (pcs w)[i := f (pcs w ! i)]"
  "peerConnections (upd_pc i f w) = peerConnections w"
  "connectionAttempts (upd_pc i f w) = connectionAttempts w"
  "pendingOffers (upd_pc i f w) = pendingOffers w"
  "isInitiator (upd_pc i f w) = isInitiator w"
  "connectionStates (upd_pc i f w) = connectionStates w"
  "establishedConnections (upd_pc i f w) = establishedConnections w"
  "iceCandidateQueue (upd_pc i f w) = iceCandidateQueue w"
  "remoteStreams (upd_pc i f w) = remoteStreams w"
  "outbox (upd_pc i f w) = outbox w"
  "timers (upd_pc i f w) = timers w"
  "now (upd_pc i f w) = now w"
  by (simp_all add: upd_pc_def)

lemma sendSignalingMessage_simps [simp]:
  "pcs (sendSignalingMessage env to body w) = pcs w"
  "peerConnections (sendSignalingMessage env to body w) = peerConnections w"
  "connectionAttempts (sendSignalingMessage env to body w) = connectionAttempts w"
  "pendingOffers (sendSignalingMessage env to body w) = pendingOffers w"
  "isInitiator (sendSignalingMessage env to body w) = isInitiator w"
  "connectionStates (sendSignalingMessage env to body w) = connectionStates w"
  "establishedConnections (sendSignalingMessage env to body w) = establishedConnections w"
  "iceCandidateQueue (sendSignalingMessage env to body w) = iceCandidateQueue w"
  "remoteStreams (sendSignalingMessage env to body w) = remoteStreams w"
  "timers (sendSignalingMessage env to body w) = timers w"
  "now (sendSignalingMessage env to body w) = now w"
  by (simp_all add: sendSignalingMessage_def split: option.splits)

lemma outbox_sendSignalingMessage:
  "gameId env = Some g \<Longrightarrow> g \<noteq> [] \<Longrightarrow> playerId env = Some me \<Longrightarrow> me \<noteq> [] \<Longrightarrow>
     outbox (sendSignalingMessage env to body w) =
       outbox w @ [\<lparr>sig_game = g, sig_from = me, sig_to = to, sig_body = body\<rparr>]"
  by (simp add: sendSignalingMessage_def)

lemma removePeerConnection_simps [simp]:
  "connectionAttempts (removePeerConnection p w) = (connectionAttempts w)(p := None)"
  "pendingOffers (removePeerConnection p w) = pendingOffers w - {p}"
  "isInitiator (removePeerConnection p w) = (isInitiator w)(p := None)"
  "connectionStates (removePeerConnection p w) = (connectionStates w)(p := None)"
  "establishedConnections (removePeerConnection p w) = establishedConnections w - {p}"
  "iceCandidateQueue (removePeerConnection p w) = (iceCandidateQueue w)(p := None)"
  "remoteStreams (removePeerConnection p w) = (remoteStreams w)(p := None)"
  "outbox (removePeerConnection p w) = outbox w"
  "timers (removePeerConnection p w) = timers w"
  "now (removePeerConnection p w) = now w"
  by (cases "peerConnections w p"; simp add: removePeerConnection_def upd_pc_def)+

lemma setTimeout_simps [simp]:
  "pcs (setTimeout env d a w) = pcs w"
  "peerConnections (setTimeout env d a w) = peerConnections w"
  "connectionAttempts (setTimeout env d a w) = connectionAttempts w"
  "pendingOffers (setTimeout env d a w) = pendingOffers w"
  "isInitiator (setTimeout env d a w) = isInitiator w"
  "connectionStates (setTimeout env d a w) = connectionStates w"
  "establishedConnections (setTimeout env d a w) = establishedConnections w"
  "iceCandidateQueue (setTimeout env d a w) = iceCandidateQueue w"
  "remoteStreams (setTimeout env d a w) = remoteStreams w"
  "outbox (setTimeout env d a w) = outbox w"
  "now (setTimeout env d a w) = now w"
  "timers (setTimeout env d a w) = timers w @ [\<lparr>due = now w + d, timer_env = env, timer_action = a\<rparr>]"
  by (simp_all add: setTimeout_def)

subsection \<open>The example runs, evaluated\<close>

lemma alice_calling_eval:
  "alice_calling =
     \<lparr>pcs = [open_call],
      peerConnections = [''bob'' \<mapsto> 0], connectionAttempts = Map.empty,
      pendingOffers = {''bob''}, isInitiator = [''bob'' \<mapsto> True], connectionStates = [''bob'' \<mapsto> New],
      establishedConnections = {}, iceCandidateQueue = Map.empty,
      remoteStreams = Map.empty, outbox = [offer_to_bob], timers = [], now = 0\<rparr>"
  by (simp add: alice_calling_def initiateCall_def createPeerConnection_def send_offer_def drain_queue_def
      sendSignalingMessage_def upd_pc_def log_call_def new_pc_def working_def truthy_def initial_state_def
      alice_env_def rtc_ok_def media_def open_call_def offer_to_bob_def Let_def numeral_2_eq_2)

lemma alice_connected_eval:
  "alice_connected =
     \<lparr>pcs = [open_call\<lparr>connectionState := Connected, signalingState := Stable,
                         remoteDescription := Some answer_sdp,
                         pc_calls := pc_calls open_call @ [SetRemoteDescription answer_sdp]\<rparr>],
      peerConnections = [''bob'' \<mapsto> 0], connectionAttempts = Map.empty,
      pendingOffers = {}, isInitiator = [''bob'' \<mapsto> True], connectionStates = [''bob'' \<mapsto> Connected],
      establishedConnections = {''bob''}, iceCandidateQueue = Map.empty,
      remoteStreams = Map.empty, outbox = [offer_to_bob], timers = [], now = 0\<rparr>"
  by (simp add: alice_connected_def alice_calling_eval handleAnswer_def connection_state_event_def
      onconnectionstatechange_def upd_pc_def log_call_def open_call_def rtc_ok_def Let_def)

lemma bob_calling_eval:
  "bob_calling =
     \<lparr>pcs = [open_call\<lparr>pc_peer := ''alice'', pc_env := bob_env\<rparr>],
      peerConnections = [''alice'' \<mapsto> 0], connectionAttempts = Map.empty,
      pendingOffers = {''alice''}, isInitiator = [''alice'' \<mapsto> True], connectionStates = [''alice'' \<mapsto> New],
      establishedConnections = {}, iceCandidateQueue = Map.empty,
      remoteStreams = Map.empty,
      outbox = [\<lparr>sig_game = ''game'', sig_from = ''bob'', sig_to = ''alice'', sig_body = OfferBody offer_sdp\<rparr>],
      timers = [], now = 0\<rparr>"
  by (simp add: bob_calling_def initiateCall_def createPeerConnection_def send_offer_def drain_queue_def
      sendSignalingMessage_def upd_pc_def log_call_def new_pc_def working_def truthy_def initial_state_def
      bob_env_def rtc_ok_def media_def open_call_def Let_def numeral_2_eq_2)

lemma alice_connected_state:
  "alice_connected =
     \<lparr>pcs = [answered_call Connected],
      peerConnections = [''bob'' \<mapsto> 0], connectionAttempts = Map.empty,
      pendingOffers = {}, isInitiator = [''bob'' \<mapsto> True], connectionStates = [''bob'' \<mapsto> Connected],
      establishedConnections = {''bob''}, iceCandidateQueue = Map.empty,
      remoteStreams = Map.empty, outbox = [offer_to_bob], timers = [], now = 0\<rparr>"
  by (simp add: alice_connected_eval answered_call_def open_call_def)

lemma flap_drop1_eval:
  "flap_drop1 =
     \<lparr>pcs = [answered_call Disconnected],
      peerConnections = [''bob'' \<mapsto> 0], connectionAttempts = Map.empty,
      pendingOffers = {}, isInitiator = [''bob'' \<mapsto> True], connectionStates = [''bob'' \<mapsto> Disconnected],
      establishedConnections = {}, iceCandidateQueue = Map.empty,
      remoteStreams = Map.empty, outbox = [offer_to_bob], timers = [grace_timer 10000], now = 0\<rparr>"
  by (simp add: flap_drop1_def alice_connected_state connection_state_event_def onconnectionstatechange_def
      setTimeout_def upd_pc_def answered_call_def grace_timer_def Let_def)

lemma flap_back_eval:
  "flap_back =
     \<lparr>pcs = [answered_call Connected],
      peerConnections = [''bob'' \<mapsto> 0], connectionAttempts = Map.empty,
      pendingOffers = {}, isInitiator = [''bob'' \<mapsto> True], connectionStates = [''bob'' \<mapsto> Connected],
      establishedConnections = {''bob''}, iceCandidateQueue = Map.empty,
      remoteStreams = Map.empty, outbox = [offer_to_bob], timers = [grace_timer 10000], now = 5000\<rparr>"
  by (simp add: flap_back_def flap_drop1_eval elapse_def connection_state_event_def onconnectionstatechange_def
      upd_pc_def answered_call_def Let_def)

lemma flap_drop2_eval:
  "flap_drop2 =
     \<lparr>pcs = [answered_call Disconnected],
      peerConnections = [''bob'' \<mapsto> 0], connectionAttempts = Map.empty,
      pendingOffers = {}, isInitiator = [''bob'' \<mapsto> True], connectionStates = [''bob'' \<mapsto> Disconnected],
      establishedConnections = {}, iceCandidateQueue = Map.empty,
      remoteStreams = Map.empty, outbox = [offer_to_bob],
      timers = [grace_timer 10000, grace_timer 19000], now = 9000\<rparr>"
  by (simp add: flap_drop2_def flap_back_eval elapse_def connection_state_event_def onconnectionstatechange_def
      setTimeout_def upd_pc_def answered_call_def grace_timer_def Let_def)

lemma flap_fired_eval:
  "flap_fired =
     \<lparr>pcs = [closed_call],
      peerConnections = Map.empty, connectionAttempts = Map.empty,
      pendingOffers = {}, isInitiator = Map.empty, connectionStates = Map.empty,
      establishedConnections = {}, iceCandidateQueue = Map.empty,
      remoteStreams = Map.empty, outbox = [offer_to_bob],
      timers = [grace_timer 19000, \<lparr>due = 12000, timer_env = alice_env, timer_action = RetryCall ''bob''\<rparr>],
      now = 10000\<rparr>"
  by (simp add: flap_fired_def flap_drop2_eval elapse_def fire_timer_def run_timer_def
      handleConnectionFailure_def removePeerConnection_def setTimeout_def
      upd_pc_def pc_close_def log_call_def answered_call_def closed_call_def grace_timer_def Let_def)

lemma bob_early_eval:
  "bob_early = initial_state\<lparr>iceCandidateQueue := [''alice'' \<mapsto> [''cand-1'', ''cand-2'']]\<rparr>"
  by (simp add: bob_early_def handleIceCandidate_def enqueue_candidate_def initial_state_def)

lemma bob_answering_eval:
  "bob_answering =
     \<lparr>pcs = [\<lparr>pc_peer = ''alice'', pc_env = bob_env, connectionState = New, signalingState = Stable,
              localDescription = Some answer_sdp, remoteDescription = Some offer_sdp,
              pc_calls = [AddTrack, AddTrack, AddIceCandidate ''cand-1'', AddIceCandidate ''cand-2'',
                          SetRemoteDescription offer_sdp, CreateAnswer, SetLocalDescription answer_sdp]\<rparr>],
      peerConnections = [''alice'' \<mapsto> 0], connectionAttempts = Map.empty,
      pendingOffers = {}, isInitiator = [''alice'' \<mapsto> False], connectionStates = [''alice'' \<mapsto> New],
      establishedConnections = {}, iceCandidateQueue = Map.empty,
      remoteStreams = Map.empty,
      outbox = [\<lparr>sig_game = ''game'', sig_from = ''bob'', sig_to = ''alice'', sig_body = AnswerBody answer_sdp\<rparr>],
      timers = [], now = 0\<rparr>"
  by (simp add: bob_answering_def bob_early_eval handleOffer_def answer_offer_def createPeerConnection_def
      drain_queue_def sendSignalingMessage_def upd_pc_def log_call_def new_pc_def working_def truthy_def
      js_less_def initial_state_def bob_env_def rtc_ok_def media_def Let_def numeral_2_eq_2)

lemma alice_queued_eval:
  "alice_queued = alice_calling\<lparr>iceCandidateQueue := [''bob'' \<mapsto> [''cand-1'']]\<rparr>"
  by (simp add: alice_queued_def handleIceCandidate_def enqueue_candidate_def alice_calling_eval open_call_def)

lemma alice_answered_eval:
  "alice_answered =
     \<lparr>pcs = [answered_call New],
      peerConnections = [''bob'' \<mapsto> 0], connectionAttempts = Map.empty,
      pendingOffers = {}, isInitiator = [''bob'' \<mapsto> True], connectionStates = [''bob'' \<mapsto> New],
      establishedConnections = {}, iceCandidateQueue = [''bob'' \<mapsto> [''cand-1'']],
      remoteStreams = Map.empty, outbox = [offer_to_bob], timers = [], now = 0\<rparr>"
  by (simp add: alice_answered_def alice_queued_eval alice_calling_eval handleAnswer_def upd_pc_def log_call_def
      open_call_def answered_call_def rtc_ok_def Let_def)

lemma alice_late_eval:
  "alice_late =
     alice_answered\<lparr>pcs := [(answered_call New)\<lparr>pc_calls := pc_calls (answered_call New) @ [AddIceCandidate ''cand-2'']\<rparr>]\<rparr>"
  by (simp add: alice_late_def alice_answered_eval handleIceCandidate_def upd_pc_def log_call_def answered_call_def)


lemma replicate_end:
  "(replicate n c @ [x]) ! n = x" "(replicate n c @ [x])[n := y] = replicate n c @ [y]"
  "n < length (replicate n c @ [x])"
  by (simp_all add: nth_append list_update_append)

lemma fail_retry_state: "connection_fails ''bob'' (retry_state n) = retry_waiting n"
  by (simp add: connection_fails_def state_event_current_def handleAnswer_def retry_state_def
      retry_waiting_def connection_state_event_def
      onconnectionstatechange_def handleConnectionFailure_def removePeerConnection_def setTimeout_def
      upd_pc_def pc_close_def log_call_def open_call_def closed_call_def rtc_ok_def Let_def replicate_end
      replicate_append_same)

lemma retry_waiting_fires: "fire_timer rtc_ok 0 (elapse 2000 (retry_waiting n)) = retry_state (Suc n)"
  by (simp add: fire_timer_def elapse_def retry_waiting_def run_timer_def retry_state_def
      initiateCall_def createPeerConnection_def send_offer_def drain_queue_def
      sendSignalingMessage_def upd_pc_def log_call_def new_pc_def working_def truthy_def
      alice_env_def rtc_ok_def media_def open_call_def offer_to_bob_def Let_def numeral_2_eq_2
      replicate_append_same nth_append list_update_append)

lemma retry_run_state: "retry_run n = retry_state n"
proof (induction n)
  case 0
  show ?case by (simp add: alice_calling_eval retry_state_def)
next
  case (Suc n)
  then show ?case by (simp add: fail_retry_state retry_waiting_fires)
qed



subsection \<open>Calling and answering, step by step\<close>

lemma drain_queue_new_pc:
  assumes "i < length (pcs w)"
  shows "connectionState (pcs (drain_queue p i w) ! i) = connectionState (pcs w ! i)"
    and "pc_peer (pcs (drain_queue p i w) ! i) = pc_peer (pcs w ! i)"
    and "remoteDescription (pcs (drain_queue p i w) ! i) = remoteDescription (pcs w ! i)"
    and "localDescription (pcs (drain_queue p i w) ! i) = localDescription (pcs w ! i)"
    and "signalingState (pcs (drain_queue p i w) ! i) = signalingState (pcs w ! i)"
  using assms by (cases "iceCandidateQueue w p"; simp add: drain_queue_def)+

lemma answer_offer_accepted:
  assumes nw: "\<not> working w from"
    and ok: "setRemoteDescription_ok rtc" "createAnswer_result rtc = Some answer" "setLocalDescription_ok rtc"
  shows "isInitiator (answer_offer env rtc from offer w) from = Some False"
    and "peerConnections (answer_offer env rtc from offer w) from = Some (length (pcs w))"
    and "remoteDescription (pcs (answer_offer env rtc from offer w) ! length (pcs w)) = Some offer"
    and "outbox (answer_offer env rtc from offer w)
           = outbox (sendSignalingMessage env from (AnswerBody answer) w)"
proof -
  let ?n = "length (pcs w)"
  let ?d = "drain_queue from ?n (replaced env from False w)"
  have c: "createPeerConnection env from False w = (?d, ?n)"
    by (rule createPeerConnection_new[OF nw])
  have len: "?n < length (pcs ?d)" by (cases "peerConnections w from") simp_all
  show "isInitiator (answer_offer env rtc from offer w) from = Some False"
    by (simp add: answer_offer_def c ok Let_def)
  show "peerConnections (answer_offer env rtc from offer w) from = Some (length (pcs w))"
    by (simp add: answer_offer_def c ok Let_def)
  show "remoteDescription (pcs (answer_offer env rtc from offer w) ! length (pcs w)) = Some offer"
    using len by (simp add: answer_offer_def c ok Let_def log_call_def)
  show "outbox (answer_offer env rtc from offer w)
           = outbox (sendSignalingMessage env from (AnswerBody answer) w)"
    by (simp add: answer_offer_def c ok Let_def sendSignalingMessage_def split: option.splits)
qed

lemma outbox_offer_failed [simp]: "outbox (offer_failed p w) = outbox w"
  by (simp add: offer_failed_def)

lemma initiateCall_sent:
  assumes sent: "outbox (initiateCall env rtc p w) \<noteq> outbox w"
  shows "localStream env \<noteq> None \<and> truthy (gameId env) \<and> truthy (playerId env)"
    and "p \<in> pendingOffers (initiateCall env rtc p w)"
    and "\<not> working (initiateCall env rtc p w) p"
    and "isInitiator (initiateCall env rtc p w) p = Some True"
proof -
  let ?wp = "w\<lparr>pendingOffers := insert p (pendingOffers w)\<rparr>"
  let ?n = "length (pcs w)"
  let ?d = "drain_queue p ?n (replaced env p True ?wp)"
  have g: "localStream env \<noteq> None \<and> truthy (gameId env) \<and> truthy (playerId env)"
  proof (rule ccontr)
    assume "\<not> ?thesis"
    then have "localStream env = None \<or> \<not> truthy (gameId env) \<or> \<not> truthy (playerId env)" by blast
    then have "initiateCall env rtc p w = w" unfolding initiateCall_def by (rule if_P)
    with sent show False by simp
  qed
  then have g': "\<not> (localStream env = None \<or> \<not> truthy (gameId env) \<or> \<not> truthy (playerId env))" by blast
  have np: "p \<notin> pendingOffers w"
  proof
    assume "p \<in> pendingOffers w"
    then have "initiateCall env rtc p w = w" unfolding initiateCall_def by (simp only: g' if_False if_True)
    with sent show False by simp
  qed
  have nw: "\<not> working w p"
  proof
    assume "working w p"
    then have "initiateCall env rtc p w = w" unfolding initiateCall_def by (simp only: g' np if_False if_True)
    with sent show False by simp
  qed
  then have nw': "\<not> working ?wp p"
    by (cases "peerConnections w p") (simp_all add: working_def)
  have c: "createPeerConnection env p True ?wp = (?d, ?n)"
    using createPeerConnection_new[OF nw', of env True] by simp
  have run: "initiateCall env rtc p w = send_offer env rtc p ?n ?d"
    unfolding initiateCall_def by (simp only: g' np nw if_False c prod.case)
  obtain offer where o: "createOffer_result rtc = Some offer"
    using sent unfolding run by (cases "createOffer_result rtc") (simp_all add: send_offer_def Let_def)
  have l: "setLocalDescription_ok rtc"
    using sent unfolding run by (cases "setLocalDescription_ok rtc") (simp_all add: send_offer_def Let_def o)
  have len: "?n < length (pcs ?d)" by (cases "peerConnections w p") simp_all
  have st: "connectionState (pcs ?d ! ?n) = New"
    by (cases "peerConnections w p") (simp_all add: new_pc_def nth_append)
  show "localStream env \<noteq> None \<and> truthy (gameId env) \<and> truthy (playerId env)" by (rule g)
  show "p \<in> pendingOffers (initiateCall env rtc p w)"
    by (simp add: run send_offer_def Let_def o l)
  show "isInitiator (initiateCall env rtc p w) p = Some True"
    by (simp add: run send_offer_def Let_def o l)
  show "\<not> working (initiateCall env rtc p w) p"
    using len st by (simp add: run send_offer_def Let_def o l working_def log_call_def)
qed

lemma roles_exclusive:
  "stays_initiator env rtc p offer w \<Longrightarrow> \<not> becomes_responder env rtc p offer w"
  by (simp add: stays_initiator_def becomes_responder_def Let_def)

lemma glare_ignore:
  assumes "localStream env \<noteq> None \<and> truthy (gameId env) \<and> truthy (playerId env)"
    and "playerId env = Some me" and "me < p"
    and "p \<in> pendingOffers w" and "\<not> working w p" and "isInitiator w p = Some True"
  shows "stays_initiator env rtc p offer w"
proof -
  have g: "\<not> (localStream env = None \<or> \<not> truthy (gameId env))" using assms(1) by blast
  have "handleOffer env rtc p offer w = w"
    unfolding handleOffer_def using assms(2,3,4) by (simp only: g assms(5) if_False js_less_def) simp
  with assms(4,6) show ?thesis by (simp add: stays_initiator_def)
qed

lemma glare_yield:
  assumes env: "localStream env \<noteq> None \<and> truthy (gameId env) \<and> truthy (playerId env)"
    and me: "playerId env = Some me" and ge: "\<not> me < p"
    and nw: "\<not> working w p"
    and ok: "setRemoteDescription_ok rtc" "createAnswer_result rtc = Some answer" "setLocalDescription_ok rtc"
  shows "becomes_responder env rtc p offer w"
proof -
  have g: "\<not> (localStream env = None \<or> \<not> truthy (gameId env))" using env by blast
  have h: "handleOffer env rtc p offer w = answer_offer env rtc p offer w"
    unfolding handleOffer_def using me ge by (simp only: g nw if_False js_less_def) simp
  from env obtain gm where gm: "gameId env = Some gm" "gm \<noteq> []"
    by (cases "gameId env") (simp_all add: truthy_def)
  from env me have ne: "me \<noteq> []" by (simp add: truthy_def)
  note a = answer_offer_accepted[OF nw ok, of env offer]
  have "outbox (answer_offer env rtc p offer w)
          = outbox w @ [\<lparr>sig_game = gm, sig_from = me, sig_to = p, sig_body = AnswerBody answer\<rparr>]"
    using a(4) outbox_sendSignalingMessage[OF gm me ne] by simp
  with a(1,2,3) gm me show ?thesis
    unfolding becomes_responder_def h Let_def by blast
qed

subsection \<open>Glare: which side yields\<close>

text \<open>
  C1, as stated, fails: the direction is the other way round. Alice (the smaller id) has
  an offer pending toward Bob when Bob's offer arrives: she ignores it, the state is
  unchanged and she remains the initiator. Bob (the larger id) has an offer pending
  toward Alice when her offer arrives: he gives up his own call, is no longer the
  initiator, and the new connection object carries her offer as remote description.
\<close>

theorem glare_tie_break_counterexample:
  "''alice'' < ''bob'' \<and>
   ''bob'' \<in> pendingOffers alice_calling \<and> isInitiator alice_calling ''bob'' = Some True \<and>
   handleOffer alice_env rtc_ok ''bob'' offer_sdp alice_calling = alice_calling \<and>
   ''alice'' \<in> pendingOffers bob_calling \<and> isInitiator bob_calling ''alice'' = Some True \<and>
   isInitiator (handleOffer bob_env rtc_ok ''alice'' offer_sdp bob_calling) ''alice'' = Some False \<and>
   remoteDescription (pcs (handleOffer bob_env rtc_ok ''alice'' offer_sdp bob_calling) ! 1) = Some offer_sdp"
proof -
  have nwA: "\<not> working alice_calling ''bob''"
    by (simp add: working_def alice_calling_eval open_call_def)
  have a: "handleOffer alice_env rtc_ok ''bob'' offer_sdp alice_calling = alice_calling"
    using nwA by (simp add: handleOffer_def js_less_def alice_env_def truthy_def alice_calling_eval)
  have nwB: "\<not> working bob_calling ''alice''"
    by (simp add: working_def bob_calling_eval open_call_def)
  have h: "handleOffer bob_env rtc_ok ''alice'' offer_sdp bob_calling
             = answer_offer bob_env rtc_ok ''alice'' offer_sdp bob_calling"
    using nwB by (simp add: handleOffer_def js_less_def bob_env_def truthy_def)
  have ok: "setRemoteDescription_ok rtc_ok" "createAnswer_result rtc_ok = Some answer_sdp"
    "setLocalDescription_ok rtc_ok"
    by (simp_all add: rtc_ok_def)
  have len: "length (pcs bob_calling) = 1" by (simp add: bob_calling_eval)
  from answer_offer_accepted(1,3)[OF nwB ok, of bob_env offer_sdp] len h
  have b: "isInitiator (handleOffer bob_env rtc_ok ''alice'' offer_sdp bob_calling) ''alice'' = Some False"
    "remoteDescription (pcs (handleOffer bob_env rtc_ok ''alice'' offer_sdp bob_calling) ! 1) = Some offer_sdp"
    by simp_all
  have c: "''bob'' \<in> pendingOffers alice_calling" "isInitiator alice_calling ''bob'' = Some True"
    by (simp_all add: alice_calling_eval)
  have d: "''alice'' \<in> pendingOffers bob_calling" "isInitiator bob_calling ''alice'' = Some True"
    by (simp_all add: bob_calling_eval)
  from a b c d show ?thesis by simp
qed


text \<open>
  C1, amended. An offer from \<open>from\<close> arrives while an offer toward \<open>from\<close> is pending
  (local media started, a game id given, no connected or connecting connection to
  \<open>from\<close>). When the local id is lexicographically smaller than \<open>from\<close>, the offer is
  ignored and the local side proceeds as initiator. Otherwise the local side processes
  the offer as the called side: \<open>handleOffer\<close> runs \<open>answer_offer\<close>, and when the
  browser accepts the descriptions the peer is recorded as not initiated locally and the
  pool holds a new connection object for it, with the offer as remote description.
\<close>

theorem glare_tie_break:
  assumes "localStream env \<noteq> None" and "truthy (gameId env)" and "playerId env = Some me"
    and "from \<in> pendingOffers w" and "\<not> working w from"
  shows "(me < from \<longrightarrow> handleOffer env rtc from offer w = w) \<and>
         (\<not> me < from \<longrightarrow>
            handleOffer env rtc from offer w = answer_offer env rtc from offer w \<and>
            (setRemoteDescription_ok rtc \<and> createAnswer_result rtc \<noteq> None \<and> setLocalDescription_ok rtc \<longrightarrow>
               isInitiator (handleOffer env rtc from offer w) from = Some False \<and>
               peerConnections (handleOffer env rtc from offer w) from = Some (length (pcs w)) \<and>
               remoteDescription (pcs (handleOffer env rtc from offer w) ! length (pcs w)) = Some offer))"
proof -
  have g: "\<not> (localStream env = None \<or> \<not> truthy (gameId env))" using assms(1,2) by blast
  have 1: "me < from \<Longrightarrow> handleOffer env rtc from offer w = w"
    unfolding handleOffer_def using assms(3,4) by (simp only: g assms(5) if_False js_less_def) simp
  have 2: "\<not> me < from \<Longrightarrow> handleOffer env rtc from offer w = answer_offer env rtc from offer w"
    unfolding handleOffer_def using assms(3,4) by (simp only: g assms(5) if_False js_less_def) simp
  have 3: "isInitiator (answer_offer env rtc from offer w) from = Some False \<and>
           peerConnections (answer_offer env rtc from offer w) from = Some (length (pcs w)) \<and>
           remoteDescription (pcs (answer_offer env rtc from offer w) ! length (pcs w)) = Some offer"
    if "setRemoteDescription_ok rtc" "createAnswer_result rtc \<noteq> None" "setLocalDescription_ok rtc"
  proof -
    from that(2) obtain answer where "createAnswer_result rtc = Some answer" by blast
    from answer_offer_accepted(1,2,3)[OF assms(5) that(1) this that(3)] show ?thesis by simp
  qed
  from 1 2 3 show ?thesis by metis
qed

theorem glare_tie_break_witness:
  "localStream alice_env \<noteq> None \<and> truthy (gameId alice_env) \<and> playerId alice_env = Some ''alice'' \<and>
   ''bob'' \<in> pendingOffers alice_calling \<and> \<not> working alice_calling ''bob'' \<and> ''alice'' < ''bob'' \<and>
   handleOffer alice_env rtc_ok ''bob'' offer_sdp alice_calling = alice_calling \<and>
   localStream bob_env \<noteq> None \<and> truthy (gameId bob_env) \<and> playerId bob_env = Some ''bob'' \<and>
   ''alice'' \<in> pendingOffers bob_calling \<and> \<not> working bob_calling ''alice'' \<and> \<not> ''bob'' < ''alice'' \<and>
   handleOffer bob_env rtc_ok ''alice'' offer_sdp bob_calling
     = answer_offer bob_env rtc_ok ''alice'' offer_sdp bob_calling \<and>
   isInitiator (handleOffer bob_env rtc_ok ''alice'' offer_sdp bob_calling) ''alice'' = Some False"
proof -
  have eA: "localStream alice_env \<noteq> None" "truthy (gameId alice_env)" "playerId alice_env = Some ''alice''"
    by (simp_all add: alice_env_def truthy_def)
  have sA: "''bob'' \<in> pendingOffers alice_calling" "\<not> working alice_calling ''bob''"
    by (simp_all add: working_def alice_calling_eval open_call_def)
  have eB: "localStream bob_env \<noteq> None" "truthy (gameId bob_env)" "playerId bob_env = Some ''bob''"
    by (simp_all add: bob_env_def truthy_def)
  have sB: "''alice'' \<in> pendingOffers bob_calling" "\<not> working bob_calling ''alice''"
    by (simp_all add: working_def bob_calling_eval open_call_def)
  have lt: "''alice'' < ''bob''" "\<not> ''bob'' < ''alice''" by simp_all
  have ok: "setRemoteDescription_ok rtc_ok \<and> createAnswer_result rtc_ok \<noteq> None \<and> setLocalDescription_ok rtc_ok"
    by (simp add: rtc_ok_def)
  from glare_tie_break[OF eA sA, of rtc_ok offer_sdp] lt
  have 1: "handleOffer alice_env rtc_ok ''bob'' offer_sdp alice_calling = alice_calling" by blast
  from glare_tie_break[OF eB sB, of rtc_ok offer_sdp] lt ok
  have 2: "handleOffer bob_env rtc_ok ''alice'' offer_sdp bob_calling
             = answer_offer bob_env rtc_ok ''alice'' offer_sdp bob_calling"
    "isInitiator (handleOffer bob_env rtc_ok ''alice'' offer_sdp bob_calling) ''alice'' = Some False"
    by blast+
  from eA sA eB sB lt 1 2 show ?thesis by blast
qed

subsection \<open>Candidates that arrive before the remote description\<close>

text \<open>
  A candidate for a connection object that has a remote description is handed to
  \<open>addIceCandidate\<close> at once, and the queue is not touched.
\<close>

lemma candidate_after_remote_description:
  "peerConnections w from = Some i \<Longrightarrow> i < length (pcs w) \<Longrightarrow> remoteDescription (pcs w ! i) \<noteq> None \<Longrightarrow>
     pc_calls (pcs (handleIceCandidate from cand w) ! i) = pc_calls (pcs w ! i) @ [AddIceCandidate cand] \<and>
     iceCandidateQueue (handleIceCandidate from cand w) = iceCandidateQueue w"
  by (simp add: handleIceCandidate_def log_call_def)


text \<open>\<open>handleAnswer\<close> sets the remote description and never drains the queue.\<close>

lemma handleAnswer_keeps_queue:
  "iceCandidateQueue (handleAnswer rtc from answer w) from = None \<or>
   iceCandidateQueue (handleAnswer rtc from answer w) from = iceCandidateQueue w from"
  by (cases "peerConnections w from") (simp_all add: handleAnswer_def Let_def)

text \<open>
  C2 is what the hook sets out to do, and the code misses it: the queue is drained in
  \<open>createPeerConnection\<close>, when the object is created, and nowhere else.

  On Bob's side two candidates of Alice arrive before her offer. When the offer arrives
  the new object gets both candidates, in arrival order, before
  \<open>setRemoteDescription\<close> is called on it, not after.

  On Alice's side a candidate of Bob arrives while her offer is out: the object exists
  and has no remote description, so the candidate is queued. Bob's answer sets the remote
  description; the candidate stays in the queue and is never handed to the object. A
  second candidate that arrives after the answer is applied at once, ahead of the first.
\<close>

theorem queued_candidates_misplaced:
  "iceCandidateQueue bob_early ''alice'' = Some [''cand-1'', ''cand-2''] \<and>
   pc_calls (pcs bob_answering ! 0)
     = [AddTrack, AddTrack, AddIceCandidate ''cand-1'', AddIceCandidate ''cand-2'',
        SetRemoteDescription offer_sdp, CreateAnswer, SetLocalDescription answer_sdp] \<and>
   peerConnections alice_queued ''bob'' = Some 0 \<and>
   iceCandidateQueue alice_queued ''bob'' = Some [''cand-1''] \<and>
   remoteDescription (pcs alice_answered ! 0) = Some answer_sdp \<and>
   iceCandidateQueue alice_answered ''bob'' = Some [''cand-1''] \<and>
   pc_calls (pcs alice_late ! 0)
     = [AddTrack, AddTrack, CreateOffer, SetLocalDescription offer_sdp,
        SetRemoteDescription answer_sdp, AddIceCandidate ''cand-2''] \<and>
   iceCandidateQueue alice_late ''bob'' = Some [''cand-1'']"
  by (simp add: bob_early_eval bob_answering_eval alice_queued_eval alice_answered_eval alice_late_eval
      alice_calling_eval answered_call_def)

subsection \<open>Retries after a failure\<close>

text \<open>
  A side that did not initiate the connection never retries: the connection is removed
  and no timer is set.
\<close>

lemma non_initiator_never_retries:
  "isInitiator w p \<noteq> Some True \<Longrightarrow> handleConnectionFailure env p w = removePeerConnection p w"
  by (cases "isInitiator w p") (auto simp: handleConnectionFailure_def Let_def)

text \<open>
  The attempt counter does not survive a failure: the retry branch writes it and
  \<open>removePeerConnection\<close> deletes it in the same run.
\<close>

lemma attempt_counter_reset:
  "connectionAttempts (handleConnectionFailure env p w) p = None"
  by (simp add: handleConnectionFailure_def Let_def)

text \<open>
  C3 is what the hook sets out to do (the code reads the counter and compares it with 3),
  and the code misses it. Alice calls Bob and the connection fails \<open>n\<close> times in a row
  (each time Bob answers, the connection starts connecting and then fails), the retry
  timer firing after each failure. For every \<open>n\<close> the hook has then posted
  \<open>n + 1\<close> offers (the call and \<open>n\<close> retries), the pool holds the connection object of
  the \<open>n\<close>-th retry with Alice as initiator, and the next failure again leaves no
  attempt counter: the retries never stop.
\<close>

theorem retries_unbounded:
  "outbox (retry_run n) = replicate (Suc n) offer_to_bob \<and>
   peerConnections (retry_run n) ''bob'' = Some n \<and>
   isInitiator (retry_run n) ''bob'' = Some True \<and>
   connectionAttempts (connection_fails ''bob'' (retry_run n)) ''bob'' = None"
  by (simp add: retry_run_state fail_retry_state) (simp add: retry_state_def retry_waiting_def)

subsection \<open>One connection object per peer\<close>

lemma drain_queue_other:
  "j \<noteq> i \<Longrightarrow> pcs (drain_queue p i w) ! j = pcs w ! j"
  by (cases "iceCandidateQueue w p") (simp_all add: drain_queue_def)

lemma createPeerConnection_replaces:
  assumes wf: "pool_wf w" and j: "peerConnections w p = Some j" and nw: "\<not> working w p"
  shows "createPeerConnection env p b w
           = (drain_queue p (length (pcs w)) (replaced env p b w), length (pcs w))"
    and "j < length (pcs w)"
    and "pcs (fst (createPeerConnection env p b w)) ! j = pc_close (pcs w ! j)"
proof -
  show c: "createPeerConnection env p b w
           = (drain_queue p (length (pcs w)) (replaced env p b w), length (pcs w))"
    by (rule createPeerConnection_new[OF nw])
  from pool_wfD1[OF wf j] show lt: "j < length (pcs w)" by simp
  then have ne: "j \<noteq> length (pcs w)" by simp
  show "pcs (fst (createPeerConnection env p b w)) ! j = pc_close (pcs w ! j)"
    using lt j by (simp add: c drain_queue_other[OF ne] nth_append)
qed

text \<open>
  C4. In every state the hook can reach, the connection objects for a peer \<open>p\<close> that are
  not closed are exactly the pool's entry for \<open>p\<close>: none when the pool has no entry, one
  when it has. After \<open>createPeerConnection\<close> for \<open>p\<close> the returned object is the only
  one for \<open>p\<close> that is not closed. When the pool had no entry for \<open>p\<close>, the returned
  object is new. When it had one that is connected or connecting, that object is returned
  and the state is unchanged. When it had one in any other state, the returned object is
  new and the previous object is the one of before with \<open>close()\<close> called on it: it is
  closed.
\<close>

theorem one_connection_per_peer:
  assumes "reachable w"
  shows "live_pcs w p = (case peerConnections w p of None \<Rightarrow> {} | Some i \<Rightarrow> {i}) \<and>
         (case createPeerConnection env p b w of
            (w', i) \<Rightarrow>
              live_pcs w' p = {i} \<and>
              (case peerConnections w p of
                 None \<Rightarrow> i = length (pcs w)
               | Some j \<Rightarrow>
                   if working w p then w' = w \<and> i = j
                   else i = length (pcs w) \<and> j < i \<and>
                        pcs w' ! j = pc_close (pcs w ! j) \<and>
                        connectionState (pcs w' ! j) = Closed))"
proof -
  from assms have wf: "pool_wf w" by (rule reachable_pool_wf)
  obtain w' i where c: "createPeerConnection env p b w = (w', i)"
    by (cases "createPeerConnection env p b w")
  from pool_wf_createPeerConnection[OF wf, of env p b] c have wf': "pool_wf w'" by simp
  from createPeerConnection_result(1)[OF wf c] live_pcs_pool[OF wf', of p]
  have live: "live_pcs w' p = {i}" by simp
  have old: "case peerConnections w p of
                 None \<Rightarrow> i = length (pcs w)
               | Some j \<Rightarrow>
                   if working w p then w' = w \<and> i = j
                   else i = length (pcs w) \<and> j < i \<and>
                        pcs w' ! j = pc_close (pcs w ! j) \<and>
                        connectionState (pcs w' ! j) = Closed"
  proof (cases "peerConnections w p")
    case None
    then have "\<not> working w p" by (simp add: working_def)
    from createPeerConnection_new[OF this, of env b] c None show ?thesis by simp
  next
    case (Some j)
    show ?thesis
    proof (cases "working w p")
      case True
      from createPeerConnection_reuse[OF True Some, of env b] c Some True show ?thesis by simp
    next
      case False
      note r1 = createPeerConnection_replaces(1)[OF wf Some False, of env b]
      note r2 = createPeerConnection_replaces(2)[OF wf Some False]
      note r3 = createPeerConnection_replaces(3)[OF wf Some False, of env b]
      from r1 c have i: "i = length (pcs w)" by simp
      from r3 c have "pcs w' ! j = pc_close (pcs w ! j)" by simp
      with i r2 Some False show ?thesis by simp
    qed
  qed
  from live old live_pcs_pool[OF wf, of p] c show ?thesis by simp
qed

theorem one_connection_per_peer_witness:
  "reachable alice_calling \<and>
   peerConnections alice_calling ''bob'' = Some 0 \<and> \<not> working alice_calling ''bob'' \<and>
   live_pcs alice_calling ''bob'' = {0} \<and>
   snd (createPeerConnection alice_env ''bob'' False alice_calling) = 1 \<and>
   live_pcs (fst (createPeerConnection alice_env ''bob'' False alice_calling)) ''bob'' = {1} \<and>
   pcs (fst (createPeerConnection alice_env ''bob'' False alice_calling)) ! 0 = pc_close open_call \<and>
   connectionState (pcs (fst (createPeerConnection alice_env ''bob'' False alice_calling)) ! 0) = Closed"
proof -
  have r: "reachable alice_calling"
    unfolding alice_calling_def by (rule reachable.call[OF reachable.start])
  have e: "peerConnections alice_calling ''bob'' = Some 0" "\<not> working alice_calling ''bob''"
    "length (pcs alice_calling) = 1" "pcs alice_calling ! 0 = open_call"
    by (simp_all add: alice_calling_eval working_def open_call_def)
  obtain w' i where c: "createPeerConnection alice_env ''bob'' False alice_calling = (w', i)"
    by (cases "createPeerConnection alice_env ''bob'' False alice_calling")
  from one_connection_per_peer[OF r, of "''bob''" alice_env False] c e r show ?thesis by simp
qed

subsection \<open>Glare: one caller, one called\<close>

text \<open>
  C5. Two peers with different ids have each called the other (each call has posted its
  offer), and each receives the other's offer; the browser accepts the descriptions.
  Then exactly one of them stays the initiator and ignores the offer, and the other
  becomes the called side and posts one answer. Which one is decided on each side alone,
  by comparing the two ids: the one with the smaller id stays the initiator.
\<close>

theorem glare_outcome:
  assumes ids: "playerId envA = Some a" "playerId envB = Some b" "a \<noteq> b"
    and callA: "outbox (initiateCall envA rtcA b wA0) \<noteq> outbox wA0"
    and callB: "outbox (initiateCall envB rtcB a wB0) \<noteq> outbox wB0"
    and ok: "setRemoteDescription_ok rtc" "createAnswer_result rtc = Some answer" "setLocalDescription_ok rtc"
  shows "(a < b \<and>
          stays_initiator envA rtc b offerB (initiateCall envA rtcA b wA0) \<and>
          becomes_responder envB rtc a offerA (initiateCall envB rtcB a wB0) \<and>
          \<not> becomes_responder envA rtc b offerB (initiateCall envA rtcA b wA0) \<and>
          \<not> stays_initiator envB rtc a offerA (initiateCall envB rtcB a wB0))
       \<or> (b < a \<and>
          stays_initiator envB rtc a offerA (initiateCall envB rtcB a wB0) \<and>
          becomes_responder envA rtc b offerB (initiateCall envA rtcA b wA0) \<and>
          \<not> becomes_responder envB rtc a offerA (initiateCall envB rtcB a wB0) \<and>
          \<not> stays_initiator envA rtc b offerB (initiateCall envA rtcA b wA0))"
proof -
  note A = initiateCall_sent[OF callA]
  note B = initiateCall_sent[OF callB]
  from ids(3) consider "a < b" | "b < a" by (metis linorder_neqE)
  then show ?thesis
  proof cases
    case 1
    then have nb: "\<not> b < a" by simp
    have s: "stays_initiator envA rtc b offerB (initiateCall envA rtcA b wA0)"
      by (rule glare_ignore[OF A(1) ids(1) 1 A(2) A(3) A(4)])
    have r: "becomes_responder envB rtc a offerA (initiateCall envB rtcB a wB0)"
      by (rule glare_yield[OF B(1) ids(2) nb B(3) ok])
    from s r roles_exclusive 1 show ?thesis by blast
  next
    case 2
    then have na: "\<not> a < b" by simp
    have s: "stays_initiator envB rtc a offerA (initiateCall envB rtcB a wB0)"
      by (rule glare_ignore[OF B(1) ids(2) 2 B(2) B(3) B(4)])
    have r: "becomes_responder envA rtc b offerB (initiateCall envA rtcA b wA0)"
      by (rule glare_yield[OF A(1) ids(1) na A(3) ok])
    from s r roles_exclusive 2 show ?thesis by blast
  qed
qed


theorem glare_outcome_witness:
  "playerId alice_env = Some ''alice'' \<and> playerId bob_env = Some ''bob'' \<and> ''alice'' \<noteq> ''bob'' \<and>
   outbox alice_calling \<noteq> outbox initial_state \<and> outbox bob_calling \<noteq> outbox initial_state \<and>
   setRemoteDescription_ok rtc_ok \<and> createAnswer_result rtc_ok = Some answer_sdp \<and> setLocalDescription_ok rtc_ok \<and>
   ''alice'' < ''bob'' \<and>
   stays_initiator alice_env rtc_ok ''bob'' offer_sdp alice_calling \<and>
   becomes_responder bob_env rtc_ok ''alice'' offer_sdp bob_calling"
proof -
  have ids: "playerId alice_env = Some ''alice''" "playerId bob_env = Some ''bob''" "''alice'' \<noteq> ''bob''"
    by (simp_all add: alice_env_def bob_env_def)
  have callA: "outbox (initiateCall alice_env rtc_ok ''bob'' initial_state) \<noteq> outbox initial_state"
    using alice_calling_eval by (simp add: alice_calling_def initial_state_def)
  have callB: "outbox (initiateCall bob_env rtc_ok ''alice'' initial_state) \<noteq> outbox initial_state"
    using bob_calling_eval by (simp add: bob_calling_def initial_state_def)
  have ok: "setRemoteDescription_ok rtc_ok" "createAnswer_result rtc_ok = Some answer_sdp"
    "setLocalDescription_ok rtc_ok"
    by (simp_all add: rtc_ok_def)
  have lt: "''alice'' < ''bob''" "\<not> ''bob'' < ''alice''" by simp_all
  from glare_outcome[OF ids callA callB ok, of offer_sdp offer_sdp] lt
  have "stays_initiator alice_env rtc_ok ''bob'' offer_sdp alice_calling \<and>
        becomes_responder bob_env rtc_ok ''alice'' offer_sdp bob_calling"
    by (simp add: alice_calling_def bob_calling_def)
  with ids callA callB ok lt show ?thesis by (simp add: alice_calling_def bob_calling_def)
qed

subsection \<open>The grace window of a disconnected connection\<close>

text \<open>
  When a connection object becomes disconnected, the handler only sets a timer of
  10000 ms; the pool is not touched. When the timer fires it looks at the state the
  object has at that moment: failure handling runs if the state is disconnected, and
  nothing happens otherwise.
\<close>

lemma grace_timer_scheduled:
  assumes "i < length (pcs w)" "connectionState (pcs w ! i) \<noteq> Closed" "connectionState (pcs w ! i) \<noteq> Disconnected"
    and "connectionStates w (pc_peer (pcs w ! i)) \<noteq> Some Disconnected"
  shows "timers (connection_state_event i Disconnected w)
           = timers w @ [\<lparr>due = now w + 10000, timer_env = pc_env (pcs w ! i),
                          timer_action = GraceCheck i (pc_peer (pcs w ! i))\<rparr>]"
    and "peerConnections (connection_state_event i Disconnected w) = peerConnections w"
  using assms by (simp_all add: connection_state_event_def onconnectionstatechange_def Let_def)

lemma grace_check_recovered:
  "connectionState (pcs w ! i) \<noteq> Disconnected \<Longrightarrow> run_timer env rtc (GraceCheck i p) w = w"
  by (simp add: run_timer_def)

lemma grace_check_still_disconnected:
  "connectionState (pcs w ! i) = Disconnected \<Longrightarrow>
     run_timer env rtc (GraceCheck i p) w = handleConnectionFailure env p w"
  by (simp add: run_timer_def)

text \<open>
  C6 is what the hook sets out to do (the comment reads: only handle as failure if it
  stays disconnected), and the code misses a case, since the timer is never cancelled.
  Alice is connected to Bob. The connection drops at time 0 and a grace timer due at
  10 s is set. At 5 s the connection is back. At 9 s it drops again and a second grace
  timer due at 19 s is set. At 10 s the first timer fires, finds the state disconnected,
  and failure handling runs: the connection is closed and removed from the pool and a
  retry is scheduled, one second after the drop, although the connection had returned to
  connected inside the first window and the second window has nine seconds left.
\<close>

theorem grace_window_flap:
  "connectionState (pcs flap_drop1 ! 0) = Disconnected \<and> now flap_drop1 = 0 \<and>
   timers flap_drop1 = [grace_timer 10000] \<and>
   connectionState (pcs flap_back ! 0) = Connected \<and> now flap_back = 5000 \<and>
   ''bob'' \<in> establishedConnections flap_back \<and>
   connectionState (pcs flap_drop2 ! 0) = Disconnected \<and> now flap_drop2 = 9000 \<and>
   timers flap_drop2 = [grace_timer 10000, grace_timer 19000] \<and>
   now flap_fired = 10000 \<and> peerConnections flap_fired ''bob'' = None \<and>
   connectionState (pcs flap_fired ! 0) = Closed \<and>
   timers flap_fired = [grace_timer 19000, \<lparr>due = 12000, timer_env = alice_env, timer_action = RetryCall ''bob''\<rparr>]"
  by (simp add: flap_drop1_eval flap_back_eval flap_drop2_eval flap_fired_eval answered_call_def closed_call_def)

subsection \<open>One peer's failure leaves the others alone\<close>

lemma removePeerConnection_other_pc:
  assumes wf: "pool_wf w" and ne: "y \<noteq> x"
  shows "map_option (\<lambda>i. pcs (removePeerConnection x w) ! i) (peerConnections (removePeerConnection x w) y)
       = map_option (\<lambda>i. pcs w ! i) (peerConnections w y)"
proof (cases "peerConnections w y")
  case None
  with ne show ?thesis by (simp add: peerConnections_removePeerConnection)
next
  case (Some j)
  show ?thesis
  proof (cases "peerConnections w x")
    case None
    with Some ne show ?thesis
      by (simp add: peerConnections_removePeerConnection pcs_removePeerConnection)
  next
    case (Some i)
    from pool_wfD1[OF wf Some] pool_wfD1[OF wf \<open>peerConnections w y = Some j\<close>] ne
    have "i \<noteq> j" by auto
    with Some \<open>peerConnections w y = Some j\<close> ne show ?thesis
      by (simp add: peerConnections_removePeerConnection pcs_removePeerConnection)
  qed
qed

lemma peer_view_removePeerConnection:
  assumes wf: "pool_wf w" and ne: "y \<noteq> x"
  shows "peer_view (removePeerConnection x w) y = peer_view w y"
  using removePeerConnection_other_pc[OF wf ne] ne
  by (simp add: peer_view_def)

lemma peer_view_attempts:
  "y \<noteq> x \<Longrightarrow> peer_view (w\<lparr>connectionAttempts := (connectionAttempts w)(x \<mapsto> n)\<rparr>) y = peer_view w y"
  by (simp add: peer_view_def)

lemma peer_view_retry_timer:
  "y \<noteq> x \<Longrightarrow> peer_view (setTimeout env d (RetryCall x) w) y = peer_view w y"
  by (simp add: peer_view_def)

lemma peer_view_handleConnectionFailure:
  assumes wf: "pool_wf w" and ne: "y \<noteq> x"
  shows "peer_view (handleConnectionFailure env x w) y = peer_view w y"
proof -
  have wf': "pool_wf (w\<lparr>connectionAttempts := (connectionAttempts w)(x \<mapsto> n)\<rparr>)" for n
    using wf by simp
  show ?thesis
    unfolding handleConnectionFailure_def Let_def
    using ne peer_view_removePeerConnection[OF wf ne] peer_view_removePeerConnection[OF wf' ne]
    by (simp add: peer_view_retry_timer peer_view_attempts)
qed

text \<open>
  C7. In every state the hook can reach, removing the connection of a peer \<open>x\<close>
  (\<open>removePeerConnection\<close>) or handling its failure (\<open>handleConnectionFailure\<close>)
  leaves everything keyed by any other peer \<open>y\<close> as it was: its connection object, its
  attempt counter, pending-offer flag, role flag, recorded state, established flag,
  candidate queue and remote stream, the timers about it and the messages posted to it.
\<close>

theorem failure_of_one_peer_is_isolated:
  assumes "reachable w" and "y \<noteq> x"
  shows "peer_view (removePeerConnection x w) y = peer_view w y \<and>
         peer_view (handleConnectionFailure env x w) y = peer_view w y"
  using peer_view_removePeerConnection[OF reachable_pool_wf[OF assms(1)] assms(2)]
    peer_view_handleConnectionFailure[OF reachable_pool_wf[OF assms(1)] assms(2)]
  by simp

theorem failure_of_one_peer_is_isolated_witness:
  "reachable alice_two_calls \<and> ''carol'' \<noteq> ''bob'' \<and>
   peer_view (removePeerConnection ''bob'' alice_two_calls) ''carol'' = peer_view alice_two_calls ''carol'' \<and>
   peer_view (handleConnectionFailure alice_env ''bob'' alice_two_calls) ''carol'' = peer_view alice_two_calls ''carol'' \<and>
   pe_initiator (peer_view alice_two_calls ''carol'') = Some True"
proof -
  have r: "reachable alice_two_calls"
    unfolding alice_two_calls_def alice_calling_def
    by (intro reachable.call reachable.start)
  have ne: "''carol'' \<noteq> ''bob''" by simp
  have i: "pe_initiator (peer_view alice_two_calls ''carol'') = Some True"
    by (simp add: peer_view_def alice_two_calls_def alice_calling_eval initiateCall_def createPeerConnection_def
        send_offer_def drain_queue_def sendSignalingMessage_def upd_pc_def log_call_def new_pc_def working_def
        truthy_def alice_env_def rtc_ok_def media_def Let_def)
  show ?thesis
    using failure_of_one_peer_is_isolated[OF r ne, of alice_env] r ne i by simp
qed

subsection \<open>The delay before a retry\<close>

text \<open>The delay the code computes from the counter it reads grows with the counter.\<close>

lemma retry_delay_of_counter:
  "connectionAttempts w p = Some k \<Longrightarrow> k < 3 \<Longrightarrow> isInitiator w p = Some True \<Longrightarrow>
     timers (handleConnectionFailure env p w)
       = timers w @ [\<lparr>due = now w + (2000 + k * 2000), timer_env = env, timer_action = RetryCall p\<rparr>]"
  by (simp add: handleConnectionFailure_def Let_def)

text \<open>
  C8 is what the hook sets out to do (the comment on the delay reads 2s, 4s, 6s), and the
  code misses it, by the same slip as C3: the counter is deleted before it is read again.
  In the run of C3, after every failure the one pending timer is the retry, due 2000 ms
  after the failure, whatever the number of retries before it.
\<close>

theorem retry_delay_constant:
  "timers (connection_fails ''bob'' (retry_run n))
     = [\<lparr>due = now (retry_run n) + 2000, timer_env = alice_env, timer_action = RetryCall ''bob''\<rparr>]"
  by (simp add: retry_run_state fail_retry_state) (simp add: retry_state_def retry_waiting_def)

subsection \<open>Stale and duplicate messages\<close>




subsection \<open>Without local media\<close>

text \<open>
  C10, as stated, fails: not every entry point is a no-op while the local stream is
  missing. A poll that fetches an ICE candidate of Bob still queues it, since
  \<open>handleIceCandidate\<close> (like \<open>handleAnswer\<close>) does not look at the local stream.
\<close>

theorem no_media_counterexample:
  "localStream alice_no_media = None \<and>
   iceCandidateQueue (pollSignalingMessages alice_no_media [(rtc_ok, candidate_from_bob)] initial_state) ''bob''
     = Some [''cand-1''] \<and>
   pollSignalingMessages alice_no_media [(rtc_ok, candidate_from_bob)] initial_state \<noteq> initial_state"
proof -
  have q: "iceCandidateQueue (pollSignalingMessages alice_no_media [(rtc_ok, candidate_from_bob)] initial_state) ''bob''
     = Some [''cand-1'']"
    by (simp add: pollSignalingMessages_def handleSignalingMessage_def handleIceCandidate_def
        enqueue_candidate_def alice_no_media_def candidate_from_bob_def initial_state_def truthy_def)
  have "iceCandidateQueue initial_state ''bob'' = None" by (simp add: initial_state_def)
  with q have "pollSignalingMessages alice_no_media [(rtc_ok, candidate_from_bob)] initial_state \<noteq> initial_state"
    by (metis option.distinct(1))
  with q show ?thesis by (simp add: alice_no_media_def)
qed

text \<open>
  C10, amended. While the local stream is missing, the three functions that check for it
  do nothing: \<open>handleOffer\<close> drops the offer (no connection is created, nothing is
  queued, nothing is sent), and \<open>initiateCall\<close> and \<open>establishConnections\<close> send nothing
  and schedule nothing. The state is unchanged in all three.
\<close>

theorem no_media_no_call:
  "localStream env = None \<Longrightarrow>
     handleOffer env rtc from offer w = w \<and> initiateCall env rtc peerId w = w \<and>
     establishConnections env peerIds w = w"
  by (simp add: handleOffer_def initiateCall_def establishConnections_def)

theorem no_media_no_call_witness:
  "localStream alice_no_media = None \<and>
   handleOffer alice_no_media rtc_ok ''bob'' offer_sdp initial_state = initial_state \<and>
   initiateCall alice_no_media rtc_ok ''bob'' initial_state = initial_state \<and>
   establishConnections alice_no_media [''bob'', ''carol''] initial_state = initial_state"
proof -
  have h: "localStream alice_no_media = None" by (simp add: alice_no_media_def)
  show ?thesis
    using h no_media_no_call[OF h, of rtc_ok "''bob''" offer_sdp initial_state "''bob''" "[''bob'', ''carol'']"]
    by simp
qed

end
